theory Spec2Isabelle
  imports
    Complex_Main
    "HOL-Library.Multiset"
    "HOL-Library.Char_ord"
    "HOL-Library.List_Lexorder"
    "HOL-Library.Product_Lexorder"
begin

section \<open>Values exchanged between PostgreSQL and JavaScript\<close>

text \<open>
  Identifiers are UUIDs and dates are calendar days; both are modelled by natural
  numbers (only equality and the order of dates are used). Money and hours are JavaScript
  numbers; they are modelled by exact rationals, so rounding of IEEE doubles is not part
  of the model. A \<open>TIME\<close> column reaches JavaScript as the text \<open>HH:MM:SS\<close>; it is
  kept as its three numeric components.
\<close>

type_synonym uuid = nat
type_synonym date = nat

record pg_time =
  t_hour :: nat
  t_minute :: nat
  t_second :: nat

text \<open>
  What \<open>parseFloat\<close> and \<open>parseInt\<close> can be handed as a property of a row object:
  nothing (\<open>undefined\<close>), \<open>null\<close>, a number or numeric text denoting the number, or any
  other value (which both functions read as \<open>NaN\<close>).
\<close>

datatype 'a js_field = JUndefined | JNull | JNonNumeric | JNum 'a

text \<open>\<open>parseFloat\<close> and \<open>parseInt\<close>; \<open>None\<close> is \<open>NaN\<close>.\<close>

fun parseFloat :: "rat js_field \<Rightarrow> rat option" where
  "parseFloat (JNum r) = Some r"
| "parseFloat _ = None"

fun parseInt :: "int js_field \<Rightarrow> int option" where
  "parseInt (JNum n) = Some n"
| "parseInt _ = None"

text \<open>The JavaScript \<open>x || d\<close> on a number: \<open>NaN\<close> and \<open>0\<close> are falsy.\<close>

definition num_or :: "'a::zero option \<Rightarrow> 'a \<Rightarrow> 'a" where
  "num_or x d = (case x of None \<Rightarrow> d | Some v \<Rightarrow> if v = 0 then d else v)"

text \<open>A \<open>DECIMAL\<close> or \<open>INTEGER\<close> column as the driver hands it to JavaScript.\<close>

definition pg_to_js :: "'a option \<Rightarrow> 'a js_field" where
  "pg_to_js x = (case x of None \<Rightarrow> JNull | Some v \<Rightarrow> JNum v)"

text \<open>SQL \<open>COALESCE\<close>: the first argument that is not \<open>NULL\<close>.\<close>

fun coalesce :: "'a option list \<Rightarrow> 'a option" where
  "coalesce [] = None"
| "coalesce (None # xs) = coalesce xs"
| "coalesce (Some v # xs) = Some v"

section \<open>Cost calculator (reports route)\<close>

text \<open>The properties of a crew row that \<open>calculateCrewCost\<close> reads.\<close>

record crew_cost_row =
  rate :: "rat js_field"
  call_time :: "pg_time option"
  end_time :: "pg_time option"

text \<open>\<open>time.split(':').map(Number)\<close> on a \<open>TIME\<close> text.\<close>

definition split_time :: "pg_time \<Rightarrow> rat list" where
  "split_time t = [of_nat (t_hour t), of_nat (t_minute t), of_nat (t_second t)]"

definition calculateCrewCost :: "crew_cost_row \<Rightarrow> rat" where
  "calculateCrewCost assignment =
     (let r = num_or (parseFloat (rate assignment)) 0;
          hours =
            (case (call_time assignment, end_time assignment) of
               (Some c, Some e) \<Rightarrow>
                 (let start = split_time c;
                      fin = split_time e;
                      h = (fin ! 0 + fin ! 1 / 60) - (start ! 0 + start ! 1 / 60)
                  in if h < 0 then h + 24 else h)
             | _ \<Rightarrow> 8)
      in r * hours)"

text \<open>The properties of an equipment row that \<open>calculateEquipmentCost\<close> reads.\<close>

record equipment_cost_row =
  eq_rate :: "rat js_field"
  quantity :: "int js_field"

definition calculateEquipmentCost :: "equipment_cost_row \<Rightarrow> rat" where
  "calculateEquipmentCost assignment =
     (let r = num_or (parseFloat (eq_rate assignment)) 0;
          q = num_or (parseInt (quantity assignment)) 1
      in r * of_int q)"

section \<open>The store (schema of the migration)\<close>

text \<open>
  Each table is the list of its rows, with the columns the assignment and report routes
  touch. A nullable column is an \<open>option\<close>. Timestamps and the \<open>updated_at\<close> trigger
  are left out; \<open>created_by\<close> is kept as a value, its foreign key to \<open>users\<close> is not
  modelled (the \<open>authenticate\<close> middleware only lets an existing user through).
\<close>

datatype assignment_status = Pending | Confirmed | Declined | NoShow | Completed

record event =
  ev_id :: uuid
  ev_name :: string
  ev_date :: date
  ev_cost_center :: "string option"

record crew_member =
  cm_id :: uuid
  cm_name :: string
  cm_hourly_rate :: "rat option"
  cm_is_active :: "bool option"

record equipment_item =
  eq_id :: uuid
  eq_name :: string
  eq_daily_rate :: "rat option"
  eq_is_active :: "bool option"

record position =
  pos_id :: uuid
  pos_name :: string

record crew_assignment =
  ca_id :: uuid
  ca_event_id :: uuid
  ca_crew_member_id :: uuid
  ca_position_id :: "uuid option"
  ca_call_time :: "pg_time option"
  ca_end_time :: "pg_time option"
  ca_rate_override :: "rat option"
  ca_status :: "assignment_status option"
  ca_notes :: "string option"
  ca_created_by :: "uuid option"

record equipment_assignment =
  ea_id :: uuid
  ea_event_id :: uuid
  ea_equipment_id :: uuid
  ea_quantity :: "int option"
  ea_rate_override :: "rat option"
  ea_notes :: "string option"
  ea_created_by :: "uuid option"

record store =
  events :: "event list"
  crew_members :: "crew_member list"
  equipment :: "equipment_item list"
  positions :: "position list"
  crew_assignments :: "crew_assignment list"
  equipment_assignments :: "equipment_assignment list"

text \<open>
  The errors the store raises here, by SQLSTATE: 23505, 23503, 23502 and 22P02.
\<close>

datatype pg_error =
  UniqueViolation | ForeignKeyViolation | NotNullViolation | InvalidTextRepresentation

text \<open>
  A query parameter for a \<open>UUID\<close> column that the route did not validate: \<open>null\<close>,
  a text that is no UUID, or a UUID.
\<close>

datatype 'a sql_param = PNull | PBad | PVal 'a

text \<open>
  \<open>uuid_generate_v4()\<close>: the model draws an identifier that no row of the table has.
\<close>

definition new_uuid :: "uuid list \<Rightarrow> uuid" where
  "new_uuid used = Suc (fold max used 0)"

definition crew_pair :: "crew_assignment \<Rightarrow> uuid \<times> uuid" where
  "crew_pair r = (ca_event_id r, ca_crew_member_id r)"


text \<open>The \<open>REFERENCES\<close> clauses of \<open>crew_assignments\<close> and \<open>equipment_assignments\<close>.\<close>

definition crew_fk_ok :: "store \<Rightarrow> crew_assignment \<Rightarrow> bool" where
  "crew_fk_ok s r \<longleftrightarrow>
     ca_event_id r \<in> set (map ev_id (events s)) \<and>
     ca_crew_member_id r \<in> set (map cm_id (crew_members s)) \<and>
     (case ca_position_id r of None \<Rightarrow> True
      | Some p \<Rightarrow> p \<in> set (map pos_id (positions s)))"


text \<open>
  \<open>INSERT INTO crew_assignments ... VALUES ...\<close>: the unique index on
  \<open>(event_id, crew_member_id)\<close> is checked when the row is inserted, the foreign keys
  at the end of the statement.
\<close>

definition insert_crew_assignment :: "store \<Rightarrow> crew_assignment \<Rightarrow> pg_error + store" where
  "insert_crew_assignment s r =
     (if crew_pair r \<in> set (map crew_pair (crew_assignments s)) then Inl UniqueViolation
      else if \<not> crew_fk_ok s r then Inl ForeignKeyViolation
      else Inr (s\<lparr>crew_assignments := crew_assignments s @ [r]\<rparr>))"

text \<open>The same insert with \<open>ON CONFLICT (event_id, crew_member_id) DO NOTHING\<close>.\<close>

definition insert_crew_assignment_do_nothing ::
  "store \<Rightarrow> crew_assignment \<Rightarrow> pg_error + store" where
  "insert_crew_assignment_do_nothing s r =
     (if crew_pair r \<in> set (map crew_pair (crew_assignments s)) then Inr s
      else if \<not> crew_fk_ok s r then Inl ForeignKeyViolation
      else Inr (s\<lparr>crew_assignments := crew_assignments s @ [r]\<rparr>))"


section \<open>HTTP responses\<close>

text \<open>A JSON response with its status code, or an error response with its message.\<close>

datatype 'a response = Json nat 'a | Error nat string

text \<open>The error handler that \<open>next(error)\<close> reaches.\<close>

definition errorHandler :: "pg_error \<Rightarrow> 'a response" where
  "errorHandler err =
     (if err = UniqueViolation then Error 409 ''A record with this value already exists''
      else if err = ForeignKeyViolation then Error 400 ''Referenced record does not exist''
      else Error 500 ''Internal server error'')"

text \<open>\<open>x || null\<close> on an optional number and on an optional text.\<close>

definition num_or_null :: "rat option \<Rightarrow> rat option" where
  "num_or_null x = (case x of None \<Rightarrow> None | Some v \<Rightarrow> if v = 0 then None else Some v)"

definition text_or_null :: "string option \<Rightarrow> string option" where
  "text_or_null x = (case x of None \<Rightarrow> None | Some v \<Rightarrow> if v = [] then None else Some v)"

section \<open>Assignment manager (assignments route)\<close>

subsection \<open>Crew assignments\<close>

text \<open>
  The body of \<open>POST /crew\<close> after validation. \<open>rate_override\<close> is a JSON number.
\<close>

record crew_create_request =
  cc_event_id :: uuid
  cc_crew_member_id :: uuid
  cc_position_id :: "uuid option"
  cc_call_time :: "pg_time option"
  cc_end_time :: "pg_time option"
  cc_rate_override :: "rat option"
  cc_notes :: "string option"

text \<open>
  The row that the \<open>INSERT\<close> of \<open>POST /crew\<close> writes; \<open>id\<close> and \<open>status\<close> take their
  column defaults.
\<close>

definition crew_create_row :: "store \<Rightarrow> uuid \<Rightarrow> crew_create_request \<Rightarrow> crew_assignment" where
  "crew_create_row s user req =
     \<lparr>ca_id = new_uuid (map ca_id (crew_assignments s)),
      ca_event_id = cc_event_id req,
      ca_crew_member_id = cc_crew_member_id req,
      ca_position_id = cc_position_id req,
      ca_call_time = cc_call_time req,
      ca_end_time = cc_end_time req,
      ca_rate_override = num_or_null (cc_rate_override req),
      ca_status = Some Pending,
      ca_notes = text_or_null (cc_notes req),
      ca_created_by = Some user\<rparr>"

text \<open>
  The read-after-write query: the assignment with its crew member's name and its
  position's name.
\<close>

definition crew_full_rows ::
  "store \<Rightarrow> uuid \<Rightarrow> (crew_assignment \<times> string \<times> string option) list" where
  "crew_full_rows s i =
     concat (map (\<lambda>ca.
       concat (map (\<lambda>cm.
         (case filter (\<lambda>p. ca_position_id ca = Some (pos_id p)) (positions s) of
            [] \<Rightarrow> [(ca, cm_name cm, None)]
          | ps \<Rightarrow> map (\<lambda>p. (ca, cm_name cm, Some (pos_name p))) ps))
         (filter (\<lambda>cm. ca_crew_member_id ca = cm_id cm) (crew_members s))))
       (filter (\<lambda>ca. ca_id ca = i) (crew_assignments s)))"

text \<open>\<open>rows[0]\<close> of a query result; \<open>None\<close> is \<open>undefined\<close>.\<close>

definition first_row :: "'a list \<Rightarrow> 'a option" where
  "first_row rows = (case rows of [] \<Rightarrow> None | r # _ \<Rightarrow> Some r)"

type_synonym crew_payload = "(crew_assignment \<times> string \<times> string option) option"

definition createCrewAssignment ::
  "store \<Rightarrow> uuid \<Rightarrow> crew_create_request \<Rightarrow> crew_payload response \<times> store" where
  "createCrewAssignment s user req =
     (if filter (\<lambda>e. ev_id e = cc_event_id req) (events s) = []
      then (Error 404 ''Event not found'', s)
      else if filter (\<lambda>cm. cm_id cm = cc_crew_member_id req \<and> cm_is_active cm = Some True)
                (crew_members s) = []
      then (Error 404 ''Crew member not found or inactive'', s)
      else
        (let row = crew_create_row s user req in
         case insert_crew_assignment s row of
           Inl err \<Rightarrow>
             (if err = UniqueViolation
              then (Error 409 ''Crew member already assigned to this event'', s)
              else (errorHandler err, s))
         | Inr s' \<Rightarrow> (Json 201 (first_row (crew_full_rows s' (ca_id row))), s')))"















text \<open>
  \<open>POST /crew/bulk\<close>. The elements of \<open>crew_member_ids\<close> are not validated one by one,
  so each is a parameter that may be \<open>null\<close> or no UUID.
\<close>

record bulk_request =
  bk_event_id :: uuid
  bk_crew_member_ids :: "uuid sql_param list"
  bk_position_id :: "uuid option"
  bk_call_time :: "pg_time option"

record bulk_results =
  assigned :: nat
  skipped :: nat
  errors :: "(uuid sql_param \<times> pg_error) list"

text \<open>
  The insert of one turn of the loop; the columns it does not name take their defaults.
\<close>

definition bulk_row :: "store \<Rightarrow> uuid \<Rightarrow> bulk_request \<Rightarrow> uuid \<Rightarrow> crew_assignment" where
  "bulk_row s user req c =
     \<lparr>ca_id = new_uuid (map ca_id (crew_assignments s)),
      ca_event_id = bk_event_id req,
      ca_crew_member_id = c,
      ca_position_id = bk_position_id req,
      ca_call_time = bk_call_time req,
      ca_end_time = None,
      ca_rate_override = None,
      ca_status = Some Pending,
      ca_notes = None,
      ca_created_by = Some user\<rparr>"

definition bulk_insert :: "store \<Rightarrow> uuid \<Rightarrow> bulk_request \<Rightarrow> uuid sql_param \<Rightarrow> pg_error + store" where
  "bulk_insert s user req c =
     (case c of
        PBad \<Rightarrow> Inl InvalidTextRepresentation
      | PNull \<Rightarrow> Inl NotNullViolation
      | PVal k \<Rightarrow> insert_crew_assignment_do_nothing s (bulk_row s user req k))"

fun bulk_loop ::
  "uuid \<Rightarrow> bulk_request \<Rightarrow> uuid sql_param list \<Rightarrow> store \<Rightarrow> bulk_results \<Rightarrow> store \<times> bulk_results" where
  "bulk_loop user req [] s results = (s, results)"
| "bulk_loop user req (c # cs) s results =
     (case bulk_insert s user req c of
        Inr s' \<Rightarrow> bulk_loop user req cs s' (results\<lparr>assigned := assigned results + 1\<rparr>)
      | Inl err \<Rightarrow> bulk_loop user req cs s (results\<lparr>errors := errors results @ [(c, err)]\<rparr>))"

definition bulkCreateCrewAssignments ::
  "store \<Rightarrow> uuid \<Rightarrow> bulk_request \<Rightarrow> bulk_results response \<times> store" where
  "bulkCreateCrewAssignments s user req =
     (case bulk_loop user req (bk_crew_member_ids req) s
             \<lparr>assigned = 0, skipped = 0, errors = []\<rparr> of
        (s', results) \<Rightarrow> (Json 200 results, s'))"

subsection \<open>Equipment assignments\<close>















subsection \<open>Runs of the assignment routes\<close>




section \<open>Availability resolver (assignments route)\<close>

text \<open>SQL \<open>LEFT JOIN\<close>: a left row without a match is kept once, with \<open>NULL\<close>s.\<close>

definition left_join :: "'a list \<Rightarrow> ('a \<Rightarrow> 'b \<Rightarrow> bool) \<Rightarrow> 'b list \<Rightarrow> ('a \<times> 'b option) list" where
  "left_join ls cond rs =
     concat (map (\<lambda>l. case filter (cond l) rs of
                         [] \<Rightarrow> [(l, None)]
                       | ms \<Rightarrow> map (\<lambda>r. (l, Some r)) ms) ls)"

text \<open>
  A row of the availability query: the crew member's id and name, and the date and name
  of the joined event, \<open>NULL\<close> together when no event was joined.
\<close>

record availability_row =
  ar_id :: uuid
  ar_name :: string
  ar_event :: "(date \<times> string) option"

definition availability_join ::
  "store \<Rightarrow> date \<Rightarrow> date \<Rightarrow> ((crew_member \<times> crew_assignment option) \<times> event option) list" where
  "availability_join s d1 d2 =
     left_join
       (left_join (crew_members s) (\<lambda>cm ca. cm_id cm = ca_crew_member_id ca) (crew_assignments s))
       (\<lambda>(cm, ca) e. case ca of None \<Rightarrow> False
                      | Some a \<Rightarrow> ca_event_id a = ev_id e \<and> d1 \<le> ev_date e \<and> ev_date e \<le> d2)
       (events s)"

definition availability_rows :: "store \<Rightarrow> date \<Rightarrow> date \<Rightarrow> availability_row list" where
  "availability_rows s d1 d2 =
     map (\<lambda>((cm, ca), e).
            \<lparr>ar_id = cm_id cm, ar_name = cm_name cm,
             ar_event = map_option (\<lambda>e. (ev_date e, ev_name e)) e\<rparr>)
       (filter (\<lambda>((cm, ca), e). cm_is_active cm = Some True) (availability_join s d1 d2))"

text \<open>
  \<open>ORDER BY cm.name, e.event_date\<close>: ascending, \<open>NULL\<close> dates last. Rows with equal keys
  are kept in the order of the join.
\<close>

definition availability_key :: "availability_row \<Rightarrow> string \<times> nat \<times> date" where
  "availability_key r =
     (ar_name r, case ar_event r of None \<Rightarrow> (1, 0) | Some (d, n) \<Rightarrow> (0, d))"

text \<open>
  \<open>obj[k] = g(obj[k])\<close> on an object held as the list of its own properties.
\<close>

definition update_key :: "'k \<Rightarrow> ('v \<Rightarrow> 'v) \<Rightarrow> ('k \<times> 'v) list \<Rightarrow> ('k \<times> 'v) list" where
  "update_key k g bs = map (\<lambda>(k', b). if k' = k then (k', g b) else (k', b)) bs"

record availability_entry =
  av_id :: uuid
  av_name :: string
  av_assignments :: "(date \<times> string) list"

text \<open>
  The \<open>forEach\<close> over the rows. The object \<open>availability\<close> is the list of its own
  properties in insertion order, which is the order of \<open>Object.values\<close> for UUID keys.
\<close>

definition availability_step ::
  "(uuid \<times> availability_entry) list \<Rightarrow> availability_row \<Rightarrow> (uuid \<times> availability_entry) list" where
  "availability_step acc row =
     (let acc1 =
            (if map_of acc (ar_id row) = None
             then acc @ [(ar_id row,
                          \<lparr>av_id = ar_id row, av_name = ar_name row, av_assignments = []\<rparr>)]
             else acc)
      in case ar_event row of
           None \<Rightarrow> acc1
         | Some ev \<Rightarrow>
             update_key (ar_id row)
               (\<lambda>en. en\<lparr>av_assignments := av_assignments en @ [ev]\<rparr>) acc1)"

definition availability_group :: "availability_row list \<Rightarrow> availability_entry list" where
  "availability_group rows = map snd (foldl availability_step [] rows)"

definition crewAvailability ::
  "store \<Rightarrow> date option \<Rightarrow> date option \<Rightarrow> availability_entry list response" where
  "crewAvailability s start_date end_date =
     (case (start_date, end_date) of
        (Some d1, Some d2) \<Rightarrow>
          Json 200 (availability_group (sort_key availability_key (availability_rows s d1 d2)))
      | _ \<Rightarrow> Error 400 ''start_date and end_date required'')"

section \<open>Cost aggregator (reports route)\<close>

subsection \<open>Event report\<close>

text \<open>
  The rows of the two queries of \<open>GET /event/:id\<close>, with
  \<open>COALESCE(ca.rate_override, cm.hourly_rate, 0) as rate\<close> and
  \<open>COALESCE(ea.rate_override, eq.daily_rate, 0) as rate\<close>. The joins on positions and
  categories add names only; the order of the rows is not modelled.
\<close>

definition crew_report_row :: "crew_assignment \<Rightarrow> crew_member \<Rightarrow> crew_cost_row" where
  "crew_report_row ca cm =
     \<lparr>rate = pg_to_js (coalesce [ca_rate_override ca, cm_hourly_rate cm, Some 0]),
      call_time = ca_call_time ca,
      end_time = ca_end_time ca\<rparr>"

definition equipment_report_row :: "equipment_assignment \<Rightarrow> equipment_item \<Rightarrow> equipment_cost_row" where
  "equipment_report_row ea eq =
     \<lparr>eq_rate = pg_to_js (coalesce [ea_rate_override ea, eq_daily_rate eq, Some 0]),
      quantity = pg_to_js (ea_quantity ea)\<rparr>"

definition crew_report_rows :: "store \<Rightarrow> uuid \<Rightarrow> crew_cost_row list" where
  "crew_report_rows s i =
     concat (map (\<lambda>ca. map (crew_report_row ca)
                         (filter (\<lambda>cm. ca_crew_member_id ca = cm_id cm) (crew_members s)))
               (filter (\<lambda>ca. ca_event_id ca = i) (crew_assignments s)))"

definition equipment_report_rows :: "store \<Rightarrow> uuid \<Rightarrow> equipment_cost_row list" where
  "equipment_report_rows s i =
     concat (map (\<lambda>ea. map (equipment_report_row ea)
                         (filter (\<lambda>eq. ea_equipment_id ea = eq_id eq) (equipment s)))
               (filter (\<lambda>ea. ea_event_id ea = i) (equipment_assignments s)))"

record totals =
  t_crew :: rat
  t_equipment :: rat
  t_total :: rat

definition eventReport :: "store \<Rightarrow> uuid \<Rightarrow> totals response" where
  "eventReport s i =
     (if filter (\<lambda>e. ev_id e = i) (events s) = [] then Error 404 ''Event not found''
      else
        (let crewTotal = foldl (+) 0 (map calculateCrewCost (crew_report_rows s i));
             equipmentTotal = foldl (+) 0 (map calculateEquipmentCost (equipment_report_rows s i))
         in Json 200 \<lparr>t_crew = crewTotal, t_equipment = equipmentTotal,
                       t_total = crewTotal + equipmentTotal\<rparr>))"

text \<open>
  The event page of the front end computes its totals from the rows of \<open>GET /events/:id\<close>,
  whose rate is \<open>COALESCE(ca.rate_override, cm.hourly_rate)\<close>, read with
  \<open>parseFloat(a.rate) || 0\<close>.
\<close>

definition page_crew_rate :: "crew_assignment \<Rightarrow> crew_member \<Rightarrow> rat" where
  "page_crew_rate ca cm =
     num_or (parseFloat (pg_to_js (coalesce [ca_rate_override ca, cm_hourly_rate cm]))) 0"

definition page_equipment_rate :: "equipment_assignment \<Rightarrow> equipment_item \<Rightarrow> rat" where
  "page_equipment_rate ea eq =
     num_or (parseFloat (pg_to_js (coalesce [ea_rate_override ea, eq_daily_rate eq]))) 0"

subsection \<open>Cost report by cost center\<close>

text \<open>
  The query string of \<open>GET /costs\<close>; an absent and an empty parameter add no condition.
\<close>

record cost_query =
  q_start_date :: "date option"
  q_end_date :: "date option"
  q_cost_center :: "string option"

definition cost_where :: "cost_query \<Rightarrow> event \<Rightarrow> bool" where
  "cost_where q e \<longleftrightarrow>
     (case q_start_date q of None \<Rightarrow> True | Some d \<Rightarrow> d \<le> ev_date e) \<and>
     (case q_end_date q of None \<Rightarrow> True | Some d \<Rightarrow> ev_date e \<le> d) \<and>
     (case q_cost_center q of None \<Rightarrow> True
      | Some c \<Rightarrow> if c = [] then True else ev_cost_center e = Some c)"

text \<open>
  The \<open>FROM\<close> clause for one event: the event left-joined with its crew assignments,
  their crew members, its equipment assignments and their equipment, in this order.
\<close>

type_synonym cost_join_row =
  "(((event \<times> crew_assignment option) \<times> crew_member option) \<times>
     equipment_assignment option) \<times> equipment_item option"

definition cost_join :: "store \<Rightarrow> event \<Rightarrow> cost_join_row list" where
  "cost_join s e =
     left_join
       (left_join
          (left_join
             (left_join [e] (\<lambda>e ca. ev_id e = ca_event_id ca) (crew_assignments s))
             (\<lambda>(e, ca) cm. case ca of None \<Rightarrow> False
                            | Some a \<Rightarrow> ca_crew_member_id a = cm_id cm)
             (crew_members s))
          (\<lambda>((e, ca), cm) ea. ev_id e = ea_event_id ea)
          (equipment_assignments s))
       (\<lambda>(((e, ca), cm), ea) eq. case ea of None \<Rightarrow> False
                                  | Some a \<Rightarrow> ea_equipment_id a = eq_id eq)
       (equipment s)"

text \<open>SQL multiplication and \<open>SUM\<close>: \<open>NULL\<close> absorbs a product and is skipped by a sum.\<close>

definition sql_times :: "rat option \<Rightarrow> rat option \<Rightarrow> rat option" where
  "sql_times a b = (case (a, b) of (Some x, Some y) \<Rightarrow> Some (x * y) | _ \<Rightarrow> None)"

fun sql_sum :: "rat option list \<Rightarrow> rat option" where
  "sql_sum [] = None"
| "sql_sum (None # xs) = sql_sum xs"
| "sql_sum (Some v # xs) = (case sql_sum xs of None \<Rightarrow> Some v | Some w \<Rightarrow> Some (v + w))"

text \<open>
  \<open>COALESCE(ca.rate_override, cm.hourly_rate, 0) * 8\<close> and
  \<open>COALESCE(ea.rate_override, eq.daily_rate, 0) * ea.quantity\<close> on a joined row.
\<close>

definition crew_term :: "cost_join_row \<Rightarrow> rat option" where
  "crew_term row =
     (case row of ((((e, ca), cm), ea), eq) \<Rightarrow>
        sql_times
          (coalesce [Option.bind ca ca_rate_override, Option.bind cm cm_hourly_rate, Some 0])
          (Some 8))"

definition equipment_term :: "cost_join_row \<Rightarrow> rat option" where
  "equipment_term row =
     (case row of ((((e, ca), cm), ea), eq) \<Rightarrow>
        sql_times
          (coalesce [Option.bind ea ea_rate_override, Option.bind eq eq_daily_rate, Some 0])
          (map_option of_int (Option.bind ea ea_quantity)))"

text \<open>A row of the query result: one per event (\<open>GROUP BY e.id\<close>).\<close>

record cost_row =
  cr_event :: event
  cr_crew_cost :: "rat js_field"
  cr_equipment_cost :: "rat js_field"

definition cost_row_of :: "store \<Rightarrow> event \<Rightarrow> cost_row" where
  "cost_row_of s e =
     \<lparr>cr_event = e,
      cr_crew_cost = pg_to_js (coalesce [sql_sum (map crew_term (cost_join s e)), Some 0]),
      cr_equipment_cost =
        pg_to_js (coalesce [sql_sum (map equipment_term (cost_join s e)), Some 0])\<rparr>"

text \<open>
  The whole query, \<open>ORDER BY e.event_date\<close>; events of one day are kept in table order.
\<close>

definition cost_rows :: "store \<Rightarrow> cost_query \<Rightarrow> cost_row list" where
  "cost_rows s q = map (cost_row_of s) (sort_key ev_date (filter (cost_where q) (events s)))"

record cost_event =
  ce_event :: event
  ce_crew_cost :: rat
  ce_equipment_cost :: rat
  ce_total :: rat

record bucket =
  b_events :: "cost_event list"
  b_totals :: totals

record cost_report =
  byCostCenter :: "(string \<times> bucket) list"
  grandTotal :: totals
  eventCount :: nat

text \<open>
  \<open>byCostCenter\<close> is an object literal \<open>{}\<close>: reading a key it does not own finds the
  properties of \<open>Object.prototype\<close>, which are truthy and have no \<open>events\<close>, so the
  \<open>push\<close> on them throws a \<open>TypeError\<close>. The object is held as the list of its own
  properties in the order of their creation; the order in which JavaScript enumerates
  them (keys that are array indices first) is not modelled.
\<close>

definition object_prototype_keys :: "string list" where
  "object_prototype_keys =
     [''constructor'', ''__defineGetter__'', ''__defineSetter__'', ''hasOwnProperty'',
      ''__lookupGetter__'', ''__lookupSetter__'', ''isPrototypeOf'', ''propertyIsEnumerable'',
      ''toString'', ''valueOf'', ''__proto__'', ''toLocaleString'']"

datatype js_error = TypeError

definition zero_totals :: totals where
  "zero_totals = \<lparr>t_crew = 0, t_equipment = 0, t_total = 0\<rparr>"

definition add_totals :: "totals \<Rightarrow> rat \<Rightarrow> rat \<Rightarrow> rat \<Rightarrow> totals" where
  "add_totals t c e tot =
     \<lparr>t_crew = t_crew t + c, t_equipment = t_equipment t + e, t_total = t_total t + tot\<rparr>"

definition cost_center_label :: "event \<Rightarrow> string" where
  "cost_center_label e =
     (case ev_cost_center e of None \<Rightarrow> ''Unassigned''
      | Some c \<Rightarrow> if c = [] then ''Unassigned'' else c)"

text \<open>One turn of the \<open>forEach\<close> over the result rows.\<close>

definition cost_step ::
  "(string \<times> bucket) list \<times> totals \<Rightarrow> cost_row \<Rightarrow>
   js_error + ((string \<times> bucket) list \<times> totals)" where
  "cost_step st row =
     (case st of (buckets, grand) \<Rightarrow>
        (let cc = cost_center_label (cr_event row) in
         if map_of buckets cc = None \<and> cc \<in> set object_prototype_keys then Inl TypeError
         else
           (let buckets1 =
                  (if map_of buckets cc = None
                   then buckets @ [(cc, \<lparr>b_events = [], b_totals = zero_totals\<rparr>)]
                   else buckets);
                crewCost = num_or (parseFloat (cr_crew_cost row)) 0;
                equipmentCost = num_or (parseFloat (cr_equipment_cost row)) 0;
                tot = crewCost + equipmentCost;
                ev = \<lparr>ce_event = cr_event row, ce_crew_cost = crewCost,
                      ce_equipment_cost = equipmentCost, ce_total = tot\<rparr>
            in Inr (update_key cc
                      (\<lambda>b. \<lparr>b_events = b_events b @ [ev],
                            b_totals = add_totals (b_totals b) crewCost equipmentCost tot\<rparr>)
                      buckets1,
                    add_totals grand crewCost equipmentCost tot))))"

fun cost_loop ::
  "cost_row list \<Rightarrow> (string \<times> bucket) list \<times> totals \<Rightarrow>
   js_error + ((string \<times> bucket) list \<times> totals)" where
  "cost_loop [] st = Inr st"
| "cost_loop (row # rows) st =
     (case cost_step st row of Inl err \<Rightarrow> Inl err | Inr st' \<Rightarrow> cost_loop rows st')"

definition costReport :: "store \<Rightarrow> cost_query \<Rightarrow> cost_report response" where
  "costReport s q =
     (let rows = cost_rows s q in
      case cost_loop rows ([], zero_totals) of
        Inl err \<Rightarrow> Error 500 ''Internal server error''
      | Inr (buckets, grand) \<Rightarrow>
          Json 200 \<lparr>byCostCenter = buckets, grandTotal = grand, eventCount = length rows\<rparr>)"

section \<open>The specification's formulas\<close>

text \<open>
  The effective rate in the specification's words: the rate override when present, else
  the resource's default rate, else 0.
\<close>

definition spec_effective_rate :: "rat option \<Rightarrow> rat option \<Rightarrow> rat" where
  "spec_effective_rate override default_rate =
     (case override of Some r \<Rightarrow> r
      | None \<Rightarrow> (case default_rate of Some d \<Rightarrow> d | None \<Rightarrow> 0))"

text \<open>
  The hours of a crew assignment in the specification's words: the difference of the two
  clock times in hours, 24 more when it is negative, and 8 when a time is absent.
\<close>

definition spec_hours :: "pg_time option \<Rightarrow> pg_time option \<Rightarrow> rat" where
  "spec_hours c e =
     (case c of None \<Rightarrow> 8
      | Some ct \<Rightarrow>
          (case e of None \<Rightarrow> 8
           | Some et \<Rightarrow>
               (let d = (of_nat (t_hour et) + of_nat (t_minute et) / 60) -
                        (of_nat (t_hour ct) + of_nat (t_minute ct) / 60)
                in if d < 0 then d + 24 else d)))"

text \<open>A rate as the specification reads it: a missing or non-numeric rate is 0.\<close>

definition spec_number :: "rat js_field \<Rightarrow> rat" where
  "spec_number x = (case x of JNum r \<Rightarrow> r | _ \<Rightarrow> 0)"




text \<open>
  The crew and equipment subtotals of an event in the specification's words: the sum over
  its crew assignments of the effective rate times 8, and over its equipment assignments
  of the effective rate times the quantity.
\<close>

definition spec_crew_subtotal :: "store \<Rightarrow> event \<Rightarrow> rat" where
  "spec_crew_subtotal s e =
     sum_list (concat (map (\<lambda>ca.
       map (\<lambda>cm. spec_effective_rate (ca_rate_override ca) (cm_hourly_rate cm) * 8)
         (filter (\<lambda>cm. cm_id cm = ca_crew_member_id ca) (crew_members s)))
       (filter (\<lambda>ca. ca_event_id ca = ev_id e) (crew_assignments s))))"

definition spec_equipment_subtotal :: "store \<Rightarrow> event \<Rightarrow> rat" where
  "spec_equipment_subtotal s e =
     sum_list (concat (map (\<lambda>ea.
       map (\<lambda>eq. spec_effective_rate (ea_rate_override ea) (eq_daily_rate eq) *
                  of_int (case ea_quantity ea of None \<Rightarrow> 0 | Some n \<Rightarrow> n))
         (filter (\<lambda>eq. eq_id eq = ea_equipment_id ea) (equipment s)))
       (filter (\<lambda>ea. ea_event_id ea = ev_id e) (equipment_assignments s))))"



text \<open>The (event, crew member) pairs that hold an assignment, and likewise for equipment.\<close>

definition crew_pairs :: "store \<Rightarrow> (uuid \<times> uuid) list" where
  "crew_pairs s = map crew_pair (crew_assignments s)"


text \<open>
  The error, if any, of the bulk insert of one id taken alone, on the store as the call
  finds it; and the list of these errors for the ids of a call, in their order.
\<close>

definition bulk_item_error ::
  "store \<Rightarrow> uuid \<Rightarrow> bulk_request \<Rightarrow> uuid sql_param \<Rightarrow> pg_error option" where
  "bulk_item_error s user req c =
     (case bulk_insert s user req c of Inl err \<Rightarrow> Some err | Inr s' \<Rightarrow> None)"

definition bulk_errors ::
  "store \<Rightarrow> uuid \<Rightarrow> bulk_request \<Rightarrow> uuid sql_param list \<Rightarrow> (uuid sql_param \<times> pg_error) list" where
  "bulk_errors s user req cs =
     concat (map (\<lambda>c. case bulk_item_error s user req c of
                         None \<Rightarrow> [] | Some err \<Rightarrow> [(c, err)]) cs)"

text \<open>
  A crew member id that a bulk call can assign: the event, the crew member and the
  position of the call, when it names one, exist.
\<close>

definition bulk_valid :: "store \<Rightarrow> bulk_request \<Rightarrow> uuid \<Rightarrow> bool" where
  "bulk_valid s req k \<longleftrightarrow>
     bk_event_id req \<in> set (map ev_id (events s)) \<and>
     k \<in> set (map cm_id (crew_members s)) \<and>
     (case bk_position_id req of None \<Rightarrow> True
      | Some p \<Rightarrow> p \<in> set (map pos_id (positions s)))"

definition valid_crew_pair :: "store \<Rightarrow> uuid \<Rightarrow> uuid \<Rightarrow> bool" where
  "valid_crew_pair s e c \<longleftrightarrow>
     e \<in> set (map ev_id (events s)) \<and>
     list_ex (\<lambda>cm. cm_id cm = c \<and> cm_is_active cm = Some True) (crew_members s)"


definition position_known :: "store \<Rightarrow> uuid option \<Rightarrow> bool" where
  "position_known s p \<longleftrightarrow>
     (case p of None \<Rightarrow> True | Some i \<Rightarrow> i \<in> set (map pos_id (positions s)))"






definition opt_list :: "'a option \<Rightarrow> 'a list" where
  "opt_list x = (case x of None \<Rightarrow> [] | Some v \<Rightarrow> [v])"

definition events_of :: "uuid \<Rightarrow> availability_row list \<Rightarrow> (date \<times> string) list" where
  "events_of k rows =
     concat (map (\<lambda>r. opt_list (ar_event r)) (filter (\<lambda>r. ar_id r = k) rows))"

definition grouped ::
  "(uuid \<times> availability_entry) list \<Rightarrow> availability_row list \<Rightarrow> uuid \<Rightarrow>
   availability_entry option" where
  "grouped acc rows k =
     (case map_of acc k of
        Some en \<Rightarrow> Some (en\<lparr>av_assignments := av_assignments en @ events_of k rows\<rparr>)
      | None \<Rightarrow>
          (case filter (\<lambda>r. ar_id r = k) rows of
             [] \<Rightarrow> None
           | r # _ \<Rightarrow> Some \<lparr>av_id = k, av_name = ar_name r, av_assignments = events_of k rows\<rparr>))"

text \<open>
  The (date, event name) pairs of a crew member in the specification's words: one pair
  for every assignment of the member whose event has its date in the range, bounds
  included.
\<close>

definition spec_member_events :: "store \<Rightarrow> date \<Rightarrow> date \<Rightarrow> crew_member \<Rightarrow> (date \<times> string) list" where
  "spec_member_events s d1 d2 cm =
     concat (map (\<lambda>ca.
       map (\<lambda>e. (ev_date e, ev_name e))
         (filter (\<lambda>e. ca_event_id ca = ev_id e \<and> d1 \<le> ev_date e \<and> ev_date e \<le> d2) (events s)))
       (filter (\<lambda>ca. cm_id cm = ca_crew_member_id ca) (crew_assignments s)))"

definition active_members :: "store \<Rightarrow> crew_member list" where
  "active_members s = filter (\<lambda>cm. cm_is_active cm = Some True) (crew_members s)"

text \<open>The rows of the availability query that stem from one crew member.\<close>

definition member_rows :: "store \<Rightarrow> date \<Rightarrow> date \<Rightarrow> crew_member \<Rightarrow> availability_row list" where
  "member_rows s d1 d2 cm = availability_rows (s\<lparr>crew_members := [cm]\<rparr>) d1 d2"

text \<open>
  A list of rows that the store may hand back for the availability query: the rows of
  the join in an order that \<open>ORDER BY cm.name, e.event_date\<close> allows.
\<close>

definition query_result :: "store \<Rightarrow> date \<Rightarrow> date \<Rightarrow> availability_row list \<Rightarrow> bool" where
  "query_result s d1 d2 rows \<longleftrightarrow>
     mset rows = mset (availability_rows s d1 d2) \<and> sorted (map availability_key rows)"

text \<open>What the availability report owes to one crew member.\<close>

definition entry_for ::
  "store \<Rightarrow> date \<Rightarrow> date \<Rightarrow> crew_member \<Rightarrow> availability_entry \<Rightarrow> bool" where
  "entry_for s d1 d2 cm en \<longleftrightarrow>
     av_id en = cm_id cm \<and> av_name en = cm_name cm \<and>
     mset (av_assignments en) = mset (spec_member_events s d1 d2 cm) \<and>
     sorted (map fst (av_assignments en))"

text \<open>
  The two sides of the \<open>FROM\<close> clause of the cost report for one event: the event with
  its crew assignments and their crew members, and its equipment assignments with their
  equipment.
\<close>

definition crew_side :: "store \<Rightarrow> event \<Rightarrow> ((event \<times> crew_assignment option) \<times> crew_member option) list" where
  "crew_side s e =
     left_join
       (left_join [e] (\<lambda>e ca. ev_id e = ca_event_id ca) (crew_assignments s))
       (\<lambda>(e, ca) cm. case ca of None \<Rightarrow> False | Some a \<Rightarrow> ca_crew_member_id a = cm_id cm)
       (crew_members s)"

definition equipment_side :: "store \<Rightarrow> event \<Rightarrow> (equipment_assignment option \<times> equipment_item option) list" where
  "equipment_side s e =
     left_join
       (case filter (\<lambda>ea. ev_id e = ea_event_id ea) (equipment_assignments s) of
          [] \<Rightarrow> [None] | eas \<Rightarrow> map Some eas)
       (\<lambda>ea eq. case ea of None \<Rightarrow> False | Some a \<Rightarrow> ea_equipment_id a = eq_id eq)
       (equipment s)"

definition crew_value :: "(event \<times> crew_assignment option) \<times> crew_member option \<Rightarrow> rat" where
  "crew_value x =
     (case x of ((e, ca), cm) \<Rightarrow>
        (case coalesce [Option.bind ca ca_rate_override, Option.bind cm cm_hourly_rate, Some 0] of
           None \<Rightarrow> 0 | Some r \<Rightarrow> r * 8))"

text \<open>
  Referential integrity as far as the crew cost of an event needs it: every crew
  assignment of the event has its crew member, and every equipment assignment of the
  event has exactly one piece of equipment.
\<close>

definition event_integrity :: "store \<Rightarrow> event \<Rightarrow> bool" where
  "event_integrity s e \<longleftrightarrow>
     list_all (\<lambda>ca. filter (\<lambda>cm. ca_crew_member_id ca = cm_id cm) (crew_members s) \<noteq> [])
       (filter (\<lambda>ca. ev_id e = ca_event_id ca) (crew_assignments s)) \<and>
     list_all (\<lambda>ea. length (filter (\<lambda>eq. ea_equipment_id ea = eq_id eq) (equipment s)) = 1)
       (filter (\<lambda>ea. ev_id e = ea_event_id ea) (equipment_assignments s))"

text \<open>The number of equipment assignments of an event.\<close>

definition equipment_count :: "store \<Rightarrow> event \<Rightarrow> nat" where
  "equipment_count s e =
     length (filter (\<lambda>ea. ev_id e = ea_event_id ea) (equipment_assignments s))"

section \<open>Example data\<close>

text \<open>
  A small store: three events (one without a cost center), three crew members (one
  inactive), two pieces of equipment, and assignments among them.
\<close>

definition gala :: event where
  "gala = \<lparr>ev_id = 1, ev_name = ''Gala'', ev_date = 10, ev_cost_center = Some ''CC-A''\<rparr>"

definition expo :: event where
  "expo = \<lparr>ev_id = 2, ev_name = ''Expo'', ev_date = 11, ev_cost_center = None\<rparr>"

definition revue :: event where
  "revue = \<lparr>ev_id = 3, ev_name = ''Revue'', ev_date = 12, ev_cost_center = Some ''CC-A''\<rparr>"

definition demo_store :: store where
  "demo_store =
     \<lparr>events = [gala, expo, revue],
      crew_members =
        [\<lparr>cm_id = 1, cm_name = ''Ann'', cm_hourly_rate = Some 20, cm_is_active = Some True\<rparr>,
         \<lparr>cm_id = 2, cm_name = ''Bob'', cm_hourly_rate = None, cm_is_active = Some True\<rparr>,
         \<lparr>cm_id = 3, cm_name = ''Cy'', cm_hourly_rate = Some 30, cm_is_active = Some False\<rparr>],
      equipment =
        [\<lparr>eq_id = 1, eq_name = ''Lamp'', eq_daily_rate = Some 5, eq_is_active = Some True\<rparr>,
         \<lparr>eq_id = 2, eq_name = ''Truss'', eq_daily_rate = Some 7, eq_is_active = Some True\<rparr>],
      positions = [\<lparr>pos_id = 1, pos_name = ''Rigger''\<rparr>],
      crew_assignments =
        [\<lparr>ca_id = 1, ca_event_id = 1, ca_crew_member_id = 1, ca_position_id = None,
          ca_call_time = None, ca_end_time = None, ca_rate_override = Some 10,
          ca_status = Some Pending, ca_notes = None, ca_created_by = None\<rparr>,
         \<lparr>ca_id = 2, ca_event_id = 2, ca_crew_member_id = 1, ca_position_id = None,
          ca_call_time = None, ca_end_time = None, ca_rate_override = None,
          ca_status = Some Pending, ca_notes = None, ca_created_by = None\<rparr>,
         \<lparr>ca_id = 3, ca_event_id = 3, ca_crew_member_id = 2, ca_position_id = Some 1,
          ca_call_time = None, ca_end_time = None, ca_rate_override = None,
          ca_status = Some Confirmed, ca_notes = None, ca_created_by = None\<rparr>],
      equipment_assignments =
        [\<lparr>ea_id = 1, ea_event_id = 1, ea_equipment_id = 1, ea_quantity = Some 1,
          ea_rate_override = None, ea_notes = None, ea_created_by = None\<rparr>,
         \<lparr>ea_id = 2, ea_event_id = 1, ea_equipment_id = 2, ea_quantity = Some 1,
          ea_rate_override = None, ea_notes = None, ea_created_by = None\<rparr>,
         \<lparr>ea_id = 3, ea_event_id = 3, ea_equipment_id = 1, ea_quantity = Some 3,
          ea_rate_override = None, ea_notes = None, ea_created_by = None\<rparr>]\<rparr>"

definition all_events :: cost_query where
  "all_events = \<lparr>q_start_date = None, q_end_date = None, q_cost_center = None\<rparr>"


text \<open>
  A bulk call for the event \<open>gala\<close>: an id already assigned, a new one, an unknown one,
  a text that is no UUID, an inactive crew member, a repetition and a \<open>null\<close>.
\<close>

definition demo_bulk :: bulk_request where
  "demo_bulk =
     \<lparr>bk_event_id = 1,
      bk_crew_member_ids = [PVal 1, PVal 2, PVal 9, PBad, PVal 3, PVal 2, PNull],
      bk_position_id = None,
      bk_call_time = None\<rparr>"

definition demo_bulk_results :: bulk_results where
  "demo_bulk_results =
     \<lparr>assigned = 4, skipped = 0,
      errors = [(PVal 9, ForeignKeyViolation), (PBad, InvalidTextRepresentation),
                (PNull, NotNullViolation)]\<rparr>"

definition demo_bulk_rows :: "crew_assignment list" where
  "demo_bulk_rows =
     [\<lparr>ca_id = 4, ca_event_id = 1, ca_crew_member_id = 2, ca_position_id = None,
       ca_call_time = None, ca_end_time = None, ca_rate_override = None,
       ca_status = Some Pending, ca_notes = None, ca_created_by = Some 7\<rparr>,
      \<lparr>ca_id = 5, ca_event_id = 1, ca_crew_member_id = 3, ca_position_id = None,
       ca_call_time = None, ca_end_time = None, ca_rate_override = None,
       ca_status = Some Pending, ca_notes = None, ca_created_by = Some 7\<rparr>]"









definition demo_availability :: "availability_entry list" where
  "demo_availability =
     [\<lparr>av_id = 1, av_name = ''Ann'', av_assignments = [(10, ''Gala''), (11, ''Expo'')]\<rparr>,
      \<lparr>av_id = 2, av_name = ''Bob'', av_assignments = []\<rparr>]"

section \<open>Cost calculator: properties\<close>

lemma num_or_parseFloat: "num_or (parseFloat x) 0 = spec_number x"
  by (cases x) (simp_all add: num_or_def spec_number_def)


lemma report_rate: "spec_number (pg_to_js (coalesce [a, b, Some 0])) = spec_effective_rate a b"
  by (cases a; cases b) (simp_all add: spec_number_def pg_to_js_def spec_effective_rate_def)

lemma page_rate: "spec_number (pg_to_js (coalesce [a, b])) = spec_effective_rate a b"
  by (cases a; cases b) (simp_all add: spec_number_def pg_to_js_def spec_effective_rate_def)

lemma crew_hours:
  "calculateCrewCost \<lparr>rate = x, call_time = c, end_time = e\<rparr> = spec_number x * spec_hours c e"
  by (cases c; cases e)
     (simp_all add: calculateCrewCost_def num_or_parseFloat spec_hours_def split_time_def Let_def)

lemma crew_report_cost:
  "calculateCrewCost (crew_report_row ca cm) =
     spec_effective_rate (ca_rate_override ca) (cm_hourly_rate cm) *
     spec_hours (ca_call_time ca) (ca_end_time ca)"
  by (simp add: crew_report_row_def crew_hours report_rate)


text \<open>
  C3. For every crew assignment the crew cost is the effective rate times the hours:
  the difference of end time and call time in hours, 24 more when it is negative, and 8
  hours when a time is absent. Rate 50 from 22:00 to 02:00 costs 200, and rate 50
  without times costs 400.
\<close>

theorem crewCost_formula:
  "calculateCrewCost (crew_report_row ca cm) =
     spec_effective_rate (ca_rate_override ca) (cm_hourly_rate cm) *
     spec_hours (ca_call_time ca) (ca_end_time ca) \<and>
   calculateCrewCost \<lparr>rate = JNum r, call_time = c, end_time = e\<rparr> = r * spec_hours c e \<and>
   calculateCrewCost \<lparr>rate = JNum 50,
      call_time = Some \<lparr>t_hour = 22, t_minute = 0, t_second = 0\<rparr>,
      end_time = Some \<lparr>t_hour = 2, t_minute = 0, t_second = 0\<rparr>\<rparr> = 200 \<and>
   calculateCrewCost \<lparr>rate = JNum 50, call_time = None, end_time = None\<rparr> = 400"
proof (intro conjI)
  show "calculateCrewCost (crew_report_row ca cm) =
     spec_effective_rate (ca_rate_override ca) (cm_hourly_rate cm) *
     spec_hours (ca_call_time ca) (ca_end_time ca)"
    by (rule crew_report_cost)
  show "calculateCrewCost \<lparr>rate = JNum r, call_time = c, end_time = e\<rparr> = r * spec_hours c e"
    by (simp add: crew_hours spec_number_def)
  show "calculateCrewCost \<lparr>rate = JNum 50,
      call_time = Some \<lparr>t_hour = 22, t_minute = 0, t_second = 0\<rparr>,
      end_time = Some \<lparr>t_hour = 2, t_minute = 0, t_second = 0\<rparr>\<rparr> = 200"
    by (simp add: crew_hours spec_number_def spec_hours_def)
  show "calculateCrewCost \<lparr>rate = JNum 50, call_time = None, end_time = None\<rparr> = 400"
    by (simp add: crew_hours spec_number_def spec_hours_def)
qed

text \<open>
  C5. Every place that computes a cost resolves the rate in the same way: the rate
  override when present, else the default rate of the crew member or equipment, else 0.
  The places are the event report (and its PDF export), the terms summed by the cost
  report (and its spreadsheet export), and the event page of the front end. An assignment
  with override 10 on a crew member whose rate is 20 is costed at 10.
\<close>

theorem effective_rate_chain:
  "num_or (parseFloat (rate (crew_report_row ca cm))) 0 =
     spec_effective_rate (ca_rate_override ca) (cm_hourly_rate cm) \<and>
   num_or (parseFloat (eq_rate (equipment_report_row ea eq))) 0 =
     spec_effective_rate (ea_rate_override ea) (eq_daily_rate eq) \<and>
   crew_term ((((e, Some ca), Some cm), oea), oeq) =
     Some (spec_effective_rate (ca_rate_override ca) (cm_hourly_rate cm) * 8) \<and>
   equipment_term ((((e, oca), ocm), Some ea), Some eq) =
     map_option (\<lambda>n. spec_effective_rate (ea_rate_override ea) (eq_daily_rate eq) * of_int n)
       (ea_quantity ea) \<and>
   page_crew_rate ca cm = spec_effective_rate (ca_rate_override ca) (cm_hourly_rate cm) \<and>
   page_equipment_rate ea eq = spec_effective_rate (ea_rate_override ea) (eq_daily_rate eq) \<and>
   calculateCrewCost
     (crew_report_row (ca\<lparr>ca_rate_override := Some 10\<rparr>) (cm\<lparr>cm_hourly_rate := Some 20\<rparr>)) =
     10 * spec_hours (ca_call_time ca) (ca_end_time ca)"
proof (intro conjI)
  show "num_or (parseFloat (rate (crew_report_row ca cm))) 0 =
     spec_effective_rate (ca_rate_override ca) (cm_hourly_rate cm)"
    by (simp add: crew_report_row_def num_or_parseFloat report_rate)
  show "num_or (parseFloat (eq_rate (equipment_report_row ea eq))) 0 =
     spec_effective_rate (ea_rate_override ea) (eq_daily_rate eq)"
    by (simp add: equipment_report_row_def num_or_parseFloat report_rate)
  show "crew_term ((((e, Some ca), Some cm), oea), oeq) =
     Some (spec_effective_rate (ca_rate_override ca) (cm_hourly_rate cm) * 8)"
    by (cases "ca_rate_override ca"; cases "cm_hourly_rate cm")
       (simp_all add: crew_term_def sql_times_def spec_effective_rate_def)
  show "equipment_term ((((e, oca), ocm), Some ea), Some eq) =
     map_option (\<lambda>n. spec_effective_rate (ea_rate_override ea) (eq_daily_rate eq) * of_int n)
       (ea_quantity ea)"
    by (cases "ea_rate_override ea"; cases "eq_daily_rate eq"; cases "ea_quantity ea")
       (simp_all add: equipment_term_def sql_times_def spec_effective_rate_def)
  show "page_crew_rate ca cm = spec_effective_rate (ca_rate_override ca) (cm_hourly_rate cm)"
    by (simp add: page_crew_rate_def num_or_parseFloat page_rate)
  show "page_equipment_rate ea eq = spec_effective_rate (ea_rate_override ea) (eq_daily_rate eq)"
    by (simp add: page_equipment_rate_def num_or_parseFloat page_rate)
  show "calculateCrewCost
     (crew_report_row (ca\<lparr>ca_rate_override := Some 10\<rparr>) (cm\<lparr>cm_hourly_rate := Some 20\<rparr>)) =
     10 * spec_hours (ca_call_time ca) (ca_end_time ca)"
    by (simp add: crew_report_cost spec_effective_rate_def)
qed



section \<open>Cost aggregator: properties\<close>

lemma update_key_keys: "map fst (update_key k g bs) = map fst bs"
  by (induction bs) (auto simp: update_key_def)


lemma map_of_None_iff: "map_of bs k = None \<longleftrightarrow> k \<notin> fst ` set bs"
  by (simp add: map_of_eq_None_iff)








text \<open>
  The cost report returns a result unless the label of a matched event is the name of a
  property of \<open>Object.prototype\<close>; an event whose cost center is \<open>constructor\<close> makes
  the route answer with the status 500.
\<close>

lemma cost_step_returns:
  "cost_center_label (cr_event row) \<notin> set object_prototype_keys \<Longrightarrow>
     \<exists>st'. cost_step st row = Inr st'"
  by (cases st) (simp add: cost_step_def Let_def)

lemma cost_loop_returns:
  "\<forall>row\<in>set rows. cost_center_label (cr_event row) \<notin> set object_prototype_keys \<Longrightarrow>
     \<exists>st'. cost_loop rows st = Inr st'"
proof (induction rows arbitrary: st)
  case Nil
  show ?case by simp
next
  case (Cons row rows)
  from Cons.prems cost_step_returns[of row st] obtain st1 where
    s: "cost_step st row = Inr st1" by auto
  from Cons.IH[of st1] Cons.prems obtain st' where "cost_loop rows st1 = Inr st'" by auto
  with s show ?case by simp
qed

lemma costReport_returns:
  assumes "\<forall>e\<in>set (events s). cost_center_label e \<notin> set object_prototype_keys"
  shows "\<exists>rep. costReport s q = Json 200 rep"
proof -
  have "\<forall>row\<in>set (cost_rows s q). cost_center_label (cr_event row) \<notin> set object_prototype_keys"
    using assms by (auto simp: cost_rows_def cost_row_of_def)
  from cost_loop_returns[OF this, of "([], zero_totals)"] obtain st' where
    "cost_loop (cost_rows s q) ([], zero_totals) = Inr st'" by blast
  then show ?thesis
    by (cases st') (simp add: costReport_def Let_def)
qed

lemma costReport_prototype_key:
  "costReport
     (demo_store\<lparr>events :=
        [\<lparr>ev_id = 1, ev_name = ''Gala'', ev_date = 10, ev_cost_center = Some ''constructor''\<rparr>]\<rparr>)
     all_events = Error 500 ''Internal server error''"
  by code_simp

text \<open>
  C4. The query of the cost report joins the crew assignments and the equipment
  assignments of an event in one \<open>FROM\<close> clause, so each crew term is summed once per
  equipment assignment and each equipment term once per crew assignment. For the event
  \<open>gala\<close>, with one crew assignment at rate 10 and two equipment assignments, the
  report's crew cost is 160, while the sum of rate times 8 over its crew assignments is
  80, which is also the crew total of the event report for the same event.
\<close>

theorem costReport_join_fan_out:
  "map cr_crew_cost (cost_rows demo_store all_events) = [JNum 160, JNum 160, JNum 0] \<and>
   map (spec_crew_subtotal demo_store) [gala, expo, revue] = [80, 160, 0] \<and>
   map cr_equipment_cost (cost_rows demo_store all_events) = [JNum 12, JNum 0, JNum 15] \<and>
   map (spec_equipment_subtotal demo_store) [gala, expo, revue] = [12, 0, 15] \<and>
   length (cost_join demo_store gala) = 2 \<and>
   eventReport demo_store 1 = Json 200 \<lparr>t_crew = 80, t_equipment = 12, t_total = 92\<rparr>"
  by code_simp

section \<open>Bulk assignment: properties\<close>

lemma bulk_row_fk: "crew_fk_ok s (bulk_row s' user req k) = bulk_valid s req k"
  by (simp add: crew_fk_ok_def bulk_row_def bulk_valid_def)

lemma bulk_row_pair: "crew_pair (bulk_row s user req k) = (bk_event_id req, k)"
  by (simp add: crew_pair_def bulk_row_def)

lemma bulk_insert_PVal:
  "bulk_insert s user req (PVal k) =
     (if (bk_event_id req, k) \<in> set (crew_pairs s) then Inr s
      else if \<not> bulk_valid s req k then Inl ForeignKeyViolation
      else Inr (s\<lparr>crew_assignments := crew_assignments s @ [bulk_row s user req k]\<rparr>))"
  by (simp add: bulk_insert_def insert_crew_assignment_do_nothing_def bulk_row_fk bulk_row_pair
      crew_pairs_def)

lemma bulk_item_error_eq:
  "bulk_item_error s user req c =
     (case c of
        PNull \<Rightarrow> Some NotNullViolation
      | PBad \<Rightarrow> Some InvalidTextRepresentation
      | PVal k \<Rightarrow>
          if (bk_event_id req, k) \<in> set (crew_pairs s) \<or> bulk_valid s req k then None
          else Some ForeignKeyViolation)"
  by (cases c) (auto simp: bulk_item_error_def bulk_insert_PVal, simp_all add: bulk_insert_def)

lemma bulk_insert_Inr:
  assumes "bulk_insert s user req c = Inr s'"
  obtains k where "c = PVal k"
    and "s' = s \<or> ((bk_event_id req, k) \<notin> set (crew_pairs s) \<and> bulk_valid s req k \<and>
          s' = s\<lparr>crew_assignments := crew_assignments s @ [bulk_row s user req k]\<rparr>)"
proof (cases c)
  case (PVal k)
  with assms that[of k] show ?thesis
    by (auto simp: bulk_insert_PVal split: if_splits)
qed (use assms in \<open>simp_all add: bulk_insert_def\<close>)

lemma bulk_valid_cong:
  "events s' = events s \<Longrightarrow> crew_members s' = crew_members s \<Longrightarrow> positions s' = positions s \<Longrightarrow>
   bulk_valid s' req k = bulk_valid s req k"
  by (simp add: bulk_valid_def split: option.splits)

lemma bulk_item_error_stable:
  assumes "bulk_insert s user req c0 = Inr s'"
  shows "bulk_item_error s' user req c = bulk_item_error s user req c"
proof -
  from assms obtain k0 where c0: "c0 = PVal k0"
    and s': "s' = s \<or> ((bk_event_id req, k0) \<notin> set (crew_pairs s) \<and> bulk_valid s req k0 \<and>
          s' = s\<lparr>crew_assignments := crew_assignments s @ [bulk_row s user req k0]\<rparr>)"
    by (rule bulk_insert_Inr)
  from s' show ?thesis
  proof
    assume "s' = s" then show ?thesis by simp
  next
    assume a: "(bk_event_id req, k0) \<notin> set (crew_pairs s) \<and> bulk_valid s req k0 \<and>
          s' = s\<lparr>crew_assignments := crew_assignments s @ [bulk_row s user req k0]\<rparr>"
    then have v: "\<And>k. bulk_valid s' req k = bulk_valid s req k"
      by (intro bulk_valid_cong) simp_all
    from a have p: "set (crew_pairs s') = insert (bk_event_id req, k0) (set (crew_pairs s))"
      by (simp add: crew_pairs_def bulk_row_pair)
    from a have np: "bulk_valid s req k0" by simp
    show ?thesis
      using np by (cases c) (auto simp: bulk_item_error_eq v p)
  qed
qed

lemma bulk_loop_results:
  "bulk_loop user req cs s res = (s', res') \<Longrightarrow>
     errors res' = errors res @ bulk_errors s user req cs \<and>
     assigned res' = assigned res + length (filter (\<lambda>c. bulk_item_error s user req c = None) cs) \<and>
     skipped res' = skipped res"
proof (induction cs arbitrary: s res)
  case Nil
  then show ?case by (auto simp: bulk_errors_def)
next
  case (Cons c cs)
  show ?case
  proof (cases "bulk_insert s user req c")
    case (Inl err)
    then have e: "bulk_item_error s user req c = Some err" by (simp add: bulk_item_error_def)
    from Cons.prems Inl
    have "bulk_loop user req cs s (res\<lparr>errors := errors res @ [(c, err)]\<rparr>) = (s', res')" by simp
    from Cons.IH[OF this] show ?thesis using e by (simp add: bulk_errors_def)
  next
    case (Inr s1)
    then have e: "bulk_item_error s user req c = None" by (simp add: bulk_item_error_def)
    have st: "\<And>c'. bulk_item_error s1 user req c' = bulk_item_error s user req c'"
      by (rule bulk_item_error_stable[OF Inr])
    from Cons.prems Inr
    have "bulk_loop user req cs s1 (res\<lparr>assigned := assigned res + 1\<rparr>) = (s', res')" by simp
    from Cons.IH[OF this] show ?thesis using e by (simp add: bulk_errors_def st)
  qed
qed

lemma length_bulk_errors:
  "length (bulk_errors s user req cs) =
     length (filter (\<lambda>c. bulk_item_error s user req c \<noteq> None) cs)"
  by (induction cs) (auto simp: bulk_errors_def split: option.splits)

lemma bulk_counts:
  "length (filter (\<lambda>c. bulk_item_error s user req c = None) cs) +
   length (bulk_errors s user req cs) = length cs"
  unfolding length_bulk_errors by (induction cs) auto



lemma bulk_duplicate_no_error:
  "(bk_event_id req, k) \<in> set (crew_pairs s) \<Longrightarrow> bulk_item_error s user req (PVal k) = None"
  by (simp add: bulk_item_error_eq)


lemma demo_bulk_run:
  "bulkCreateCrewAssignments demo_store 7 demo_bulk =
     (Json 200 demo_bulk_results,
      demo_store\<lparr>crew_assignments := crew_assignments demo_store @ demo_bulk_rows\<rparr>)"
  by code_simp

lemma demo_bulk_facts:
  "(1, 1) \<in> set (crew_pairs demo_store) \<and>
   9 \<notin> set (map cm_id (crew_members demo_store)) \<and>
   (1, 9) \<notin> set (crew_pairs demo_store) \<and>
   bk_event_id demo_bulk = 1 \<and>
   length (bk_crew_member_ids demo_bulk) = 7"
  by code_simp



text \<open>
  C10. The \<open>skipped\<close> counter of a bulk call's result is 0. The assigned counter is the
  number of input ids whose insert raises no error, an id whose pair is already assigned
  among them, so the assigned count plus the length of the error list is the number of
  input ids.
\<close>

theorem bulk_counters:
  "(\<exists>res s'.
      bulkCreateCrewAssignments s user req = (Json 200 res, s') \<and>
      skipped res = 0 \<and>
      assigned res =
        length (filter (\<lambda>c. bulk_item_error s user req c = None) (bk_crew_member_ids req)) \<and>
      assigned res + length (errors res) = length (bk_crew_member_ids req)) \<and>
   (\<forall>k. (bk_event_id req, k) \<in> set (crew_pairs s) \<longrightarrow>
      bulk_item_error s user req (PVal k) = None)"
proof (intro conjI allI impI)
  obtain s' res where l:
    "bulk_loop user req (bk_crew_member_ids req) s \<lparr>assigned = 0, skipped = 0, errors = []\<rparr> =
       (s', res)"
    by (cases "bulk_loop user req (bk_crew_member_ids req) s
                 \<lparr>assigned = 0, skipped = 0, errors = []\<rparr>")
  from bulk_loop_results[OF l]
  have r: "errors res = bulk_errors s user req (bk_crew_member_ids req)"
    "assigned res =
       length (filter (\<lambda>c. bulk_item_error s user req c = None) (bk_crew_member_ids req))"
    "skipped res = 0"
    by simp_all
  have "assigned res + length (errors res) = length (bk_crew_member_ids req)"
    using bulk_counts[of s user req "bk_crew_member_ids req"] r by simp
  moreover have "bulkCreateCrewAssignments s user req = (Json 200 res, s')"
    using l by (simp add: bulkCreateCrewAssignments_def)
  ultimately show "\<exists>res s'.
      bulkCreateCrewAssignments s user req = (Json 200 res, s') \<and>
      skipped res = 0 \<and>
      assigned res =
        length (filter (\<lambda>c. bulk_item_error s user req c = None) (bk_crew_member_ids req)) \<and>
      assigned res + length (errors res) = length (bk_crew_member_ids req)"
    using r(2,3) by blast
next
  fix k assume "(bk_event_id req, k) \<in> set (crew_pairs s)"
  then show "bulk_item_error s user req (PVal k) = None"
    by (rule bulk_duplicate_no_error)
qed

theorem bulk_counters_witness:
  "bulkCreateCrewAssignments demo_store 7 demo_bulk =
     (Json 200 demo_bulk_results,
      demo_store\<lparr>crew_assignments := crew_assignments demo_store @ demo_bulk_rows\<rparr>) \<and>
   skipped demo_bulk_results = 0 \<and>
   assigned demo_bulk_results + length (errors demo_bulk_results) = 7 \<and>
   (1, 1) \<in> set (crew_pairs demo_store) \<and>
   bulk_item_error demo_store 7 demo_bulk (PVal 1) = None"
proof -
  note t = bulk_counters[of demo_store 7 demo_bulk]
  from t obtain res s' where
    r: "bulkCreateCrewAssignments demo_store 7 demo_bulk = (Json 200 res, s')"
       "skipped res = 0"
       "assigned res + length (errors res) = length (bk_crew_member_ids demo_bulk)"
    by blast
  from r(1) have res: "res = demo_bulk_results" by (simp add: demo_bulk_run)
  from t have d: "(bk_event_id demo_bulk, 1) \<in> set (crew_pairs demo_store) \<longrightarrow>
      bulk_item_error demo_store 7 demo_bulk (PVal 1) = None" by blast
  show ?thesis
    using r(2,3) d demo_bulk_facts unfolding res by (simp add: demo_bulk_run)
qed

section \<open>Single assignments and the uniqueness invariant: properties\<close>




lemma filter_nonempty_iff: "filter P xs \<noteq> [] \<longleftrightarrow> list_ex P xs"
  by (induction xs) auto

lemma crew_create_row_pair:
  "crew_pair (crew_create_row s user req) = (cc_event_id req, cc_crew_member_id req)"
  by (simp add: crew_pair_def crew_create_row_def)

lemma crew_create_row_fk:
  "crew_fk_ok s (crew_create_row s user req) \<longleftrightarrow>
     cc_event_id req \<in> set (map ev_id (events s)) \<and>
     cc_crew_member_id req \<in> set (map cm_id (crew_members s)) \<and>
     position_known s (cc_position_id req)"
  by (simp add: crew_fk_ok_def crew_create_row_def position_known_def)

lemma valid_crew_pair_checks:
  "valid_crew_pair s e c \<Longrightarrow>
     filter (\<lambda>x. ev_id x = e) (events s) \<noteq> [] \<and>
     filter (\<lambda>cm. cm_id cm = c \<and> cm_is_active cm = Some True) (crew_members s) \<noteq> [] \<and>
     c \<in> set (map cm_id (crew_members s)) \<and>
     e \<in> set (map ev_id (events s))"
  by (auto simp: valid_crew_pair_def filter_nonempty_iff list_ex_iff filter_empty_conv)


lemma createCrew_dangling_position:
  assumes "valid_crew_pair s (cc_event_id req) (cc_crew_member_id req)"
    and "(cc_event_id req, cc_crew_member_id req) \<notin> set (crew_pairs s)"
    and "\<not> position_known s (cc_position_id req)"
  shows "createCrewAssignment s user req = (Error 400 ''Referenced record does not exist'', s)"
  using valid_crew_pair_checks[OF assms(1)] assms(2,3)
  by (simp add: createCrewAssignment_def insert_crew_assignment_def crew_create_row_pair
      crew_pairs_def Let_def crew_create_row_fk errorHandler_def)























section \<open>Partial update: properties\<close>

















section \<open>Availability resolver: properties\<close>

lemma map_of_update_key:
  "map_of (update_key k g bs) k' = (if k' = k then map_option g (map_of bs k) else map_of bs k')"
  by (induction bs) (auto simp: update_key_def)

lemma map_of_snoc:
  "map_of (bs @ [(a, v)]) k =
     (case map_of bs k of Some x \<Rightarrow> Some x | None \<Rightarrow> if k = a then Some v else None)"
  by (induction bs) auto

lemma availability_step_keys:
  "map fst (availability_step acc row) =
     (if ar_id row \<in> set (map fst acc) then map fst acc else map fst acc @ [ar_id row])"
  by (cases "ar_event row")
     (auto simp: availability_step_def Let_def update_key_keys map_of_None_iff)

lemma availability_step_distinct:
  "distinct (map fst acc) \<Longrightarrow> distinct (map fst (availability_step acc row))"
  by (simp add: availability_step_keys)

lemma map_of_availability_step:
  "map_of (availability_step acc row) k =
     (if k = ar_id row
      then Some ((case map_of acc k of
                    Some en \<Rightarrow> en
                  | None \<Rightarrow> \<lparr>av_id = k, av_name = ar_name row, av_assignments = []\<rparr>)
                 \<lparr>av_assignments :=
                    av_assignments (case map_of acc k of
                       Some en \<Rightarrow> en
                     | None \<Rightarrow> \<lparr>av_id = k, av_name = ar_name row, av_assignments = []\<rparr>)
                    @ opt_list (ar_event row)\<rparr>)
      else map_of acc k)"
  by (cases "ar_event row"; cases "map_of acc (ar_id row)")
     (auto simp: availability_step_def Let_def map_of_update_key opt_list_def map_of_snoc
        simp del: map_of_append split: option.splits)

lemma events_of_Cons:
  "events_of k (r # rows) =
     (if ar_id r = k then opt_list (ar_event r) @ events_of k rows else events_of k rows)"
  by (simp add: events_of_def)

lemma foldl_availability_step:
  "map_of (foldl availability_step acc rows) k = grouped acc rows k"
proof (induction rows arbitrary: acc)
  case Nil
  show ?case by (simp add: grouped_def events_of_def split: option.splits)
next
  case (Cons r rows)
  have "map_of (foldl availability_step acc (r # rows)) k =
        grouped (availability_step acc r) rows k"
    by (simp add: Cons.IH)
  also have "\<dots> = grouped acc (r # rows) k"
    by (cases "map_of acc k")
       (auto simp: grouped_def map_of_availability_step events_of_Cons split: list.splits)
  finally show ?case .
qed

lemma foldl_availability_keys:
  "distinct (map fst acc) \<Longrightarrow>
     distinct (map fst (foldl availability_step acc rows)) \<and>
     set (map fst (foldl availability_step acc rows)) = set (map fst acc) \<union> set (map ar_id rows)"
proof (induction rows arbitrary: acc)
  case Nil
  then show ?case by simp
next
  case (Cons r rows)
  from Cons.IH[OF availability_step_distinct[OF Cons.prems, of r]]
  show ?case by (auto simp: availability_step_keys split: if_splits)
qed

lemma left_join_append:
  "left_join (xs @ ys) c rs = left_join xs c rs @ left_join ys c rs"
  by (simp add: left_join_def)

lemma left_join_concat:
  "left_join (concat xss) c rs = concat (map (\<lambda>xs. left_join xs c rs) xss)"
  by (induction xss) (simp_all add: left_join_append, simp add: left_join_def)

lemma left_join_singletons:
  "left_join xs c rs = concat (map (\<lambda>x. left_join [x] c rs) xs)"
  by (induction xs) (simp_all add: left_join_def)

lemma availability_rows_concat:
  "availability_rows s d1 d2 = concat (map (member_rows s d1 d2) (crew_members s))"
proof -
  let ?c1 = "\<lambda>cm ca. cm_id cm = ca_crew_member_id ca"
  let ?c2 = "\<lambda>(cm, ca) e. case ca of None \<Rightarrow> False
                      | Some a \<Rightarrow> ca_event_id a = ev_id e \<and> d1 \<le> ev_date e \<and> ev_date e \<le> d2"
  have "availability_join s d1 d2 =
      concat (map (\<lambda>cm. left_join (left_join [cm] ?c1 (crew_assignments s)) ?c2 (events s))
        (crew_members s))"
    unfolding availability_join_def
    by (subst left_join_singletons[of "crew_members s"]) (simp add: left_join_concat o_def)
  moreover have "member_rows s d1 d2 =
      (\<lambda>cm. map (\<lambda>((cm, ca), e).
                  \<lparr>ar_id = cm_id cm, ar_name = cm_name cm,
                   ar_event = map_option (\<lambda>e. (ev_date e, ev_name e)) e\<rparr>)
             (filter (\<lambda>((cm, ca), e). cm_is_active cm = Some True)
               (left_join (left_join [cm] ?c1 (crew_assignments s)) ?c2 (events s))))"
    by (rule ext) (simp add: member_rows_def availability_rows_def availability_join_def)
  ultimately show ?thesis
    by (simp add: availability_rows_def filter_concat map_concat o_def)
qed

lemma left_join_fst: "x \<in> set (left_join ls c rs) \<Longrightarrow> fst x \<in> set ls"
  by (induction ls) (auto simp: left_join_def split: list.splits)

lemma left_join_nonempty: "ls \<noteq> [] \<Longrightarrow> left_join ls c rs \<noteq> []"
  by (cases ls) (auto simp: left_join_def split: list.splits)

lemma left_join_events:
  "concat (map (\<lambda>x. opt_list (map_option g (snd x))) (left_join ls c rs)) =
   concat (map (\<lambda>l. map g (filter (c l) rs)) ls)"
proof (induction ls)
  case Nil
  show ?case by (simp add: left_join_def)
next
  case (Cons l ls)
  have "left_join (l # ls) c rs = left_join [l] c rs @ left_join ls c rs"
    by (simp add: left_join_def)
  moreover have "concat (map (\<lambda>x. opt_list (map_option g (snd x))) (left_join [l] c rs)) =
      map g (filter (c l) rs)"
    by (cases "filter (c l) rs") (simp_all add: left_join_def opt_list_def o_def)
  ultimately show ?case using Cons.IH by simp
qed

lemma member_rows_eq:
  "member_rows s d1 d2 cm =
     (if cm_is_active cm = Some True
      then map (\<lambda>x. \<lparr>ar_id = cm_id cm, ar_name = cm_name cm,
                     ar_event = map_option (\<lambda>e. (ev_date e, ev_name e)) (snd x)\<rparr>)
             (left_join
                (left_join [cm] (\<lambda>cm ca. cm_id cm = ca_crew_member_id ca) (crew_assignments s))
                (\<lambda>(cm, ca) e. case ca of None \<Rightarrow> False
                   | Some a \<Rightarrow> ca_event_id a = ev_id e \<and> d1 \<le> ev_date e \<and> ev_date e \<le> d2)
                (events s))
      else [])"
proof -
  let ?j = "left_join
                (left_join [cm] (\<lambda>cm ca. cm_id cm = ca_crew_member_id ca) (crew_assignments s))
                (\<lambda>(cm, ca) e. case ca of None \<Rightarrow> False
                   | Some a \<Rightarrow> ca_event_id a = ev_id e \<and> d1 \<le> ev_date e \<and> ev_date e \<le> d2)
                (events s)"
  have f: "fst (fst x) = cm" if "x \<in> set ?j" for x
  proof -
    from left_join_fst[OF that]
    have "fst (fst x) \<in> set [cm]" by (intro left_join_fst[of "fst x"]) 
    then show ?thesis by simp
  qed
  have m: "member_rows s d1 d2 cm =
      map (\<lambda>((cm, ca), e). \<lparr>ar_id = cm_id cm, ar_name = cm_name cm,
                   ar_event = map_option (\<lambda>e. (ev_date e, ev_name e)) e\<rparr>)
        (filter (\<lambda>((cm, ca), e). cm_is_active cm = Some True) ?j)"
    by (simp add: member_rows_def availability_rows_def availability_join_def)
  show ?thesis
  proof (cases "cm_is_active cm = Some True")
    case True
    have "filter (\<lambda>((cm, ca), e). cm_is_active cm = Some True) ?j = ?j"
      using True by (auto simp: filter_id_conv dest!: f)
    then show ?thesis using True unfolding m by (auto simp: case_prod_beta dest!: f)
  next
    case False
    have "filter (\<lambda>((cm, ca), e). cm_is_active cm = Some True) ?j = []"
      using False by (auto simp: filter_empty_conv dest!: f)
    then show ?thesis using False unfolding m by simp
  qed
qed

lemma member_rows_id_name:
  "r \<in> set (member_rows s d1 d2 cm) \<Longrightarrow> ar_id r = cm_id cm \<and> ar_name r = cm_name cm"
  by (auto simp: member_rows_eq split: if_splits)

lemma member_rows_inactive:
  "cm_is_active cm \<noteq> Some True \<Longrightarrow> member_rows s d1 d2 cm = []"
  by (simp add: member_rows_eq)

lemma member_rows_active:
  "cm_is_active cm = Some True \<Longrightarrow> member_rows s d1 d2 cm \<noteq> []"
  by (simp add: member_rows_eq left_join_nonempty)

lemma member_rows_events:
  assumes "cm_is_active cm = Some True"
  shows "concat (map (\<lambda>r. opt_list (ar_event r)) (member_rows s d1 d2 cm)) =
         spec_member_events s d1 d2 cm"
proof -
  let ?c1 = "\<lambda>cm ca. cm_id cm = ca_crew_member_id ca"
  let ?c2 = "\<lambda>(cm, ca) e. case ca of None \<Rightarrow> False
                   | Some a \<Rightarrow> ca_event_id a = ev_id e \<and> d1 \<le> ev_date e \<and> ev_date e \<le> d2"
  let ?g = "\<lambda>e. (ev_date e, ev_name e)"
  have "concat (map (\<lambda>r. opt_list (ar_event r)) (member_rows s d1 d2 cm)) =
      concat (map (\<lambda>x. opt_list (map_option ?g (snd x)))
        (left_join (left_join [cm] ?c1 (crew_assignments s)) ?c2 (events s)))"
    using assms by (simp add: member_rows_eq o_def)
  also have "\<dots> = concat (map (\<lambda>l. map ?g (filter (?c2 l) (events s)))
        (left_join [cm] ?c1 (crew_assignments s)))"
    by (rule left_join_events)
  also have "\<dots> = spec_member_events s d1 d2 cm"
    by (cases "filter (?c1 cm) (crew_assignments s)")
       (simp_all add: left_join_def spec_member_events_def o_def)
  finally show ?thesis .
qed

lemma rows_of_other_member:
  "k \<notin> cm_id ` set cms \<Longrightarrow>
     filter (\<lambda>r. ar_id r = k) (concat (map (member_rows s d1 d2) cms)) = []"
  by (auto simp: filter_empty_conv dest!: member_rows_id_name)

lemma rows_of_member:
  "distinct (map cm_id cms) \<Longrightarrow> cm \<in> set cms \<Longrightarrow>
     filter (\<lambda>r. ar_id r = cm_id cm) (concat (map (member_rows s d1 d2) cms)) =
       member_rows s d1 d2 cm"
proof (induction cms)
  case Nil
  then show ?case by simp
next
  case (Cons c cms)
  show ?case
  proof (cases "c = cm")
    case True
    have "cm_id cm \<notin> cm_id ` set cms" using Cons.prems(1) True by auto
    then have "filter (\<lambda>r. ar_id r = cm_id cm) (concat (map (member_rows s d1 d2) cms)) = []"
      by (rule rows_of_other_member)
    moreover have "filter (\<lambda>r. ar_id r = cm_id cm) (member_rows s d1 d2 cm) = member_rows s d1 d2 cm"
      by (auto simp: filter_id_conv dest!: member_rows_id_name)
    ultimately show ?thesis using True by simp
  next
    case False
    with Cons.prems have in_tl: "cm \<in> set cms" and d: "distinct (map cm_id cms)"
      and ne: "cm_id c \<noteq> cm_id cm" by auto
    have "filter (\<lambda>r. ar_id r = cm_id cm) (member_rows s d1 d2 c) = []"
      using ne by (auto simp: filter_empty_conv dest!: member_rows_id_name)
    then show ?thesis using Cons.IH[OF d in_tl] by simp
  qed
qed

lemma availability_row_ids:
  "ar_id ` set (availability_rows s d1 d2) = cm_id ` set (active_members s)"
proof
  show "ar_id ` set (availability_rows s d1 d2) \<subseteq> cm_id ` set (active_members s)"
  proof
    fix k assume "k \<in> ar_id ` set (availability_rows s d1 d2)"
    then obtain r cm where cm: "cm \<in> set (crew_members s)" and r: "r \<in> set (member_rows s d1 d2 cm)"
      and k: "k = ar_id r"
      by (auto simp: availability_rows_concat)
    from r have "cm_is_active cm = Some True"
      by (cases "cm_is_active cm = Some True") (simp_all add: member_rows_inactive)
    moreover from r k have "k = cm_id cm" by (simp add: member_rows_id_name)
    ultimately show "k \<in> cm_id ` set (active_members s)"
      using cm by (auto simp: active_members_def)
  qed
next
  show "cm_id ` set (active_members s) \<subseteq> ar_id ` set (availability_rows s d1 d2)"
  proof
    fix k assume "k \<in> cm_id ` set (active_members s)"
    then obtain cm where cm: "cm \<in> set (crew_members s)" "cm_is_active cm = Some True"
      and k: "k = cm_id cm"
      by (auto simp: active_members_def)
    from member_rows_active[OF cm(2), of s d1 d2] obtain r where
      r: "r \<in> set (member_rows s d1 d2 cm)" by (cases "member_rows s d1 d2 cm") auto
    then have "ar_id r = k" using k by (simp add: member_rows_id_name)
    moreover have "r \<in> set (availability_rows s d1 d2)"
      using r cm(1) by (auto simp: availability_rows_concat)
    ultimately show "k \<in> ar_id ` set (availability_rows s d1 d2)" by blast
  qed
qed

lemma sorted_dates:
  "sorted (map availability_key rows) \<Longrightarrow> \<forall>r\<in>set rows. ar_name r = n \<Longrightarrow>
     sorted (map fst (concat (map (\<lambda>r. opt_list (ar_event r)) rows)))"
proof (induction rows)
  case Nil
  show ?case by simp
next
  case (Cons r rows)
  then have ih: "sorted (map fst (concat (map (\<lambda>r. opt_list (ar_event r)) rows)))"
    and le: "\<forall>r'\<in>set rows. availability_key r \<le> availability_key r'"
    and nm: "\<forall>r'\<in>set (r # rows). ar_name r' = n"
    by auto
  show ?case
  proof (cases "ar_event r")
    case None
    with ih show ?thesis by (simp add: opt_list_def)
  next
    case (Some ev)
    obtain d nm' where ev: "ev = (d, nm')" by (cases ev)
    have "d \<le> d'" if "(d', x) \<in> set (concat (map (\<lambda>r. opt_list (ar_event r)) rows))" for d' x
    proof -
      from that obtain r' where r': "r' \<in> set rows" "ar_event r' = Some (d', x)"
        by (auto simp: opt_list_def split: option.splits)
      from le r'(1) have "availability_key r \<le> availability_key r'" by blast
      then show ?thesis
        using nm r' Some ev by (simp add: availability_key_def)
    qed
    then show ?thesis
      using ih Some ev by (auto simp: opt_list_def)
  qed
qed

lemma mset_concat_map:
  "mset xs = mset ys \<Longrightarrow> mset (concat (map f xs)) = mset (concat (map f ys))"
proof -
  assume a: "mset xs = mset ys"
  have "mset (concat (map f zs)) = sum_mset (image_mset (\<lambda>x. mset (f x)) (mset zs))" for zs
    by (induction zs) simp_all
  with a show ?thesis by simp
qed

lemma grouped_start:
  "grouped [] rows k = Some en \<Longrightarrow>
     \<exists>r rs. filter (\<lambda>r. ar_id r = k) rows = r # rs \<and>
       en = \<lparr>av_id = k, av_name = ar_name r, av_assignments = events_of k rows\<rparr>"
  by (auto simp: grouped_def split: list.splits)

lemma availability_group_entries:
  assumes pk: "distinct (map cm_id (crew_members s))"
    and q: "query_result s d1 d2 rows"
  shows "distinct (map av_id (availability_group rows)) \<and>
         set (map av_id (availability_group rows)) = cm_id ` set (active_members s) \<and>
         (\<forall>cm\<in>set (active_members s).
            \<exists>en\<in>set (availability_group rows). entry_for s d1 d2 cm en)"
proof -
  let ?G = "foldl availability_step [] rows"
  from q have ms: "mset rows = mset (availability_rows s d1 d2)"
    and srt: "sorted (map availability_key rows)" by (simp_all add: query_result_def)
  from ms have st: "set rows = set (availability_rows s d1 d2)" by (rule mset_eq_setD)
  from foldl_availability_keys[of "[]" rows]
  have dG: "distinct (map fst ?G)" and kG: "set (map fst ?G) = ar_id ` set rows" by simp_all
  have look: "grouped [] rows k = Some en" if "(k, en) \<in> set ?G" for k en
    using that dG by (simp add: foldl_availability_step[symmetric])
  have ids: "map av_id (availability_group rows) = map fst ?G"
  proof -
    have "av_id (snd x) = fst x" if "x \<in> set ?G" for x
    proof -
      obtain k en where x: "x = (k, en)" by (cases x)
      from look[of k en] that x have "grouped [] rows k = Some en" by simp
      from grouped_start[OF this] show ?thesis using x by auto
    qed
    then show ?thesis by (simp add: availability_group_def)
  qed
  have 1: "distinct (map av_id (availability_group rows))" using dG ids by simp
  have 2: "set (map av_id (availability_group rows)) = cm_id ` set (active_members s)"
    using kG ids st by (simp add: availability_row_ids)
  have 3: "\<exists>en\<in>set (availability_group rows). entry_for s d1 d2 cm en"
    if a: "cm \<in> set (active_members s)" for cm
  proof -
    from a have cm: "cm \<in> set (crew_members s)" and act: "cm_is_active cm = Some True"
      by (simp_all add: active_members_def)
    let ?k = "cm_id cm"
    let ?F = "filter (\<lambda>r. ar_id r = ?k) rows"
    from a have "?k \<in> set (map fst ?G)"
      using kG st by (simp add: availability_row_ids)
    then obtain en where en: "(?k, en) \<in> set ?G" by auto
    from grouped_start[OF look[OF en]] obtain r rs where
      F: "?F = r # rs"
      and e: "en = \<lparr>av_id = ?k, av_name = ar_name r, av_assignments = events_of ?k rows\<rparr>"
      by blast
    have mF: "mset ?F = mset (member_rows s d1 d2 cm)"
    proof -
      have "mset ?F = filter_mset (\<lambda>r. ar_id r = ?k) (mset (availability_rows s d1 d2))"
        using ms by simp
      also have "\<dots> = mset (filter (\<lambda>r. ar_id r = ?k) (availability_rows s d1 d2))" by simp
      also have "\<dots> = mset (member_rows s d1 d2 cm)"
        unfolding availability_rows_concat by (simp add: rows_of_member[OF pk cm])
      finally show ?thesis .
    qed
    then have sF: "set ?F = set (member_rows s d1 d2 cm)" by (rule mset_eq_setD)
    have nm: "\<forall>x\<in>set ?F. ar_name x = cm_name cm"
      unfolding sF by (simp add: member_rows_id_name)
    have "r \<in> set ?F" using F by simp
    with nm have rn: "ar_name r = cm_name cm" by blast
    have ev: "events_of ?k rows = concat (map (\<lambda>r. opt_list (ar_event r)) ?F)"
      by (simp add: events_of_def)
    have "mset (events_of ?k rows) =
        mset (concat (map (\<lambda>r. opt_list (ar_event r)) (member_rows s d1 d2 cm)))"
      unfolding ev by (rule mset_concat_map[OF mF])
    then have m: "mset (events_of ?k rows) = mset (spec_member_events s d1 d2 cm)"
      by (simp add: member_rows_events[OF act])
    have "sorted (map availability_key ?F)" using srt by (rule sorted_filter)
    from sorted_dates[OF this nm] have sd: "sorted (map fst (events_of ?k rows))"
      by (simp add: ev)
    have "entry_for s d1 d2 cm en"
      using e rn m sd by (simp add: entry_for_def)
    moreover have "en \<in> set (availability_group rows)"
      using en by (force simp: availability_group_def)
    ultimately show ?thesis by blast
  qed
  from 1 2 3 show ?thesis by blast
qed

lemma sort_key_query_result:
  "query_result s d1 d2 (sort_key availability_key (availability_rows s d1 d2))"
  by (simp add: query_result_def)

text \<open>
  C8. With both dates given, the availability report has exactly one entry for every
  active crew member and none for anyone else. The entry of a member carries the
  member's id and name, and its list holds exactly the (date, event name) pairs of the
  member's assignments whose event date lies in the range, bounds included, by ascending
  date; so a member without such an assignment appears with the empty list. This holds
  for every order of the rows that the \<open>ORDER BY\<close> clause allows. The crew members'
  ids are the primary key of their table.
\<close>

theorem crewAvailability_entries:
  assumes "distinct (map cm_id (crew_members s))"
  shows "(\<exists>entries.
            crewAvailability s (Some d1) (Some d2) = Json 200 entries \<and>
            distinct (map av_id entries) \<and>
            set (map av_id entries) = cm_id ` set (active_members s) \<and>
            (\<forall>cm\<in>set (active_members s).
               \<exists>en\<in>set entries. entry_for s d1 d2 cm en \<and>
                 (spec_member_events s d1 d2 cm = [] \<longrightarrow> av_assignments en = []))) \<and>
         (\<forall>rows. query_result s d1 d2 rows \<longrightarrow>
            distinct (map av_id (availability_group rows)) \<and>
            set (map av_id (availability_group rows)) = cm_id ` set (active_members s) \<and>
            (\<forall>cm\<in>set (active_members s).
               \<exists>en\<in>set (availability_group rows). entry_for s d1 d2 cm en))"
proof (intro conjI allI impI)
  let ?rows = "sort_key availability_key (availability_rows s d1 d2)"
  note g = availability_group_entries[OF assms sort_key_query_result, of d1 d2]
  have r: "crewAvailability s (Some d1) (Some d2) = Json 200 (availability_group ?rows)"
    by (simp add: crewAvailability_def)
  have e: "\<exists>en\<in>set (availability_group ?rows). entry_for s d1 d2 cm en \<and>
                 (spec_member_events s d1 d2 cm = [] \<longrightarrow> av_assignments en = [])"
    if "cm \<in> set (active_members s)" for cm
  proof -
    from g that obtain en where en: "en \<in> set (availability_group ?rows)"
      "entry_for s d1 d2 cm en" by blast
    from en(2) have "spec_member_events s d1 d2 cm = [] \<longrightarrow> av_assignments en = []"
      by (auto simp: entry_for_def)
    with en show ?thesis by blast
  qed
  from r g e show "\<exists>entries.
            crewAvailability s (Some d1) (Some d2) = Json 200 entries \<and>
            distinct (map av_id entries) \<and>
            set (map av_id entries) = cm_id ` set (active_members s) \<and>
            (\<forall>cm\<in>set (active_members s).
               \<exists>en\<in>set entries. entry_for s d1 d2 cm en \<and>
                 (spec_member_events s d1 d2 cm = [] \<longrightarrow> av_assignments en = []))"
    by blast
next
  fix rows assume q: "query_result s d1 d2 rows"
  from availability_group_entries[OF assms q]
  show "distinct (map av_id (availability_group rows))"
    and "set (map av_id (availability_group rows)) = cm_id ` set (active_members s)"
    by simp_all
next
  fix rows assume q: "query_result s d1 d2 rows"
  from availability_group_entries[OF assms q]
  show "\<forall>cm\<in>set (active_members s).
          \<exists>en\<in>set (availability_group rows). entry_for s d1 d2 cm en" by blast
qed

lemma demo_availability_run:
  "crewAvailability demo_store (Some 10) (Some 11) = Json 200 demo_availability"
  by code_simp

lemma demo_availability_facts:
  "distinct (map cm_id (crew_members demo_store)) \<and>
   map cm_id (active_members demo_store) = [1, 2] \<and>
   map (spec_member_events demo_store 10 11) (active_members demo_store) =
     [[(10, ''Gala''), (11, ''Expo'')], []]"
  by code_simp

theorem crewAvailability_entries_witness:
  "distinct (map cm_id (crew_members demo_store)) \<and>
   crewAvailability demo_store (Some 10) (Some 11) = Json 200 demo_availability \<and>
   distinct (map av_id demo_availability) \<and>
   set (map av_id demo_availability) = cm_id ` set (active_members demo_store) \<and>
   map (spec_member_events demo_store 10 11) (active_members demo_store) =
     [[(10, ''Gala''), (11, ''Expo'')], []] \<and>
   map av_assignments demo_availability = [[(10, ''Gala''), (11, ''Expo'')], []]"
proof -
  have pk: "distinct (map cm_id (crew_members demo_store))"
    using demo_availability_facts by simp
  from crewAvailability_entries[OF pk, of 10 11] obtain entries where
    e: "crewAvailability demo_store (Some 10) (Some 11) = Json 200 entries"
       "distinct (map av_id entries)"
       "set (map av_id entries) = cm_id ` set (active_members demo_store)"
    by blast
  from e(1) have "entries = demo_availability" by (simp add: demo_availability_run)
  with e pk demo_availability_facts show ?thesis
    by (simp add: demo_availability_def)
qed

section \<open>Cost report: the fan-out of the join\<close>

lemma left_join_map:
  assumes "\<And>l r. c (f l) r = c' l r"
  shows "left_join (map f ls) c rs = map (\<lambda>(l, r). (f l, r)) (left_join ls c' rs)"
proof (induction ls)
  case Nil
  show ?case by (simp add: left_join_def)
next
  case (Cons l ls)
  have "left_join (map f (l # ls)) c rs = left_join [f l] c rs @ left_join (map f ls) c rs"
    by (simp add: left_join_def)
  moreover have "left_join (l # ls) c' rs = left_join [l] c' rs @ left_join ls c' rs"
    by (simp add: left_join_def)
  moreover have "left_join [f l] c rs = map (\<lambda>(l, r). (f l, r)) (left_join [l] c' rs)"
    by (cases "filter (c' l) rs") (simp_all add: left_join_def assms[abs_def] o_def)
  ultimately show ?case using Cons.IH by simp
qed

lemma crew_side_event: "x \<in> set (crew_side s e) \<Longrightarrow> fst (fst x) = e"
proof -
  assume "x \<in> set (crew_side s e)"
  then have "fst x \<in> set (left_join [e] (\<lambda>e ca. ev_id e = ca_event_id ca) (crew_assignments s))"
    unfolding crew_side_def by (rule left_join_fst)
  then have "fst (fst x) \<in> set [e]" by (rule left_join_fst)
  then show ?thesis by simp
qed

lemma crew_side_nonempty: "crew_side s e \<noteq> []"
  by (simp add: crew_side_def left_join_nonempty)

lemma equipment_side_nonempty: "equipment_side s e \<noteq> []"
  by (auto simp: equipment_side_def intro!: left_join_nonempty split: list.splits)

lemma fan_out_one:
  assumes "fst (fst x) = e"
  shows "left_join
           (left_join [x] (\<lambda>((e, ca), cm) ea. ev_id e = ea_event_id ea) (equipment_assignments s))
           (\<lambda>(((e, ca), cm), ea) eq. case ea of None \<Rightarrow> False
                                     | Some a \<Rightarrow> ea_equipment_id a = eq_id eq)
           (equipment s) =
         map (\<lambda>(ea, eq). ((x, ea), eq)) (equipment_side s e)"
proof -
  let ?E = "filter (\<lambda>ea. ev_id e = ea_event_id ea) (equipment_assignments s)"
  let ?os = "case ?E of [] \<Rightarrow> [None] | eas \<Rightarrow> map Some eas"
  obtain e' ca cm where x: "x = ((e', ca), cm)" by (cases x) auto
  with assms have e': "e' = e" by simp
  have 1: "left_join [x] (\<lambda>((e, ca), cm) ea. ev_id e = ea_event_id ea) (equipment_assignments s) =
      map (Pair x) ?os"
    by (cases ?E) (simp_all add: left_join_def x e')
  have "left_join (map (Pair x) ?os)
           (\<lambda>(((e, ca), cm), ea) eq. case ea of None \<Rightarrow> False
                                     | Some a \<Rightarrow> ea_equipment_id a = eq_id eq)
           (equipment s) =
        map (\<lambda>(l, r). (Pair x l, r))
          (left_join ?os
             (\<lambda>ea eq. case ea of None \<Rightarrow> False | Some a \<Rightarrow> ea_equipment_id a = eq_id eq)
             (equipment s))"
    by (rule left_join_map) (simp add: x)
  then show ?thesis unfolding 1 by (simp add: equipment_side_def)
qed

lemma cost_join_fan_out:
  "cost_join s e =
     concat (map (\<lambda>x. map (\<lambda>(ea, eq). ((x, ea), eq)) (equipment_side s e)) (crew_side s e))"
proof -
  let ?c3 = "\<lambda>((e, ca), cm) ea. ev_id e = ea_event_id ea"
  let ?c4 = "\<lambda>(((e, ca), cm), ea) eq. case ea of None \<Rightarrow> False
                                     | Some a \<Rightarrow> ea_equipment_id a = eq_id eq"
  have g: "left_join (left_join xs ?c3 (equipment_assignments s)) ?c4 (equipment s) =
      concat (map (\<lambda>x. map (\<lambda>(ea, eq). ((x, ea), eq)) (equipment_side s e)) xs)"
    if "\<forall>x\<in>set xs. fst (fst x) = e"
    for xs :: "((event \<times> crew_assignment option) \<times> crew_member option) list"
    using that
  proof (induction xs)
    case Nil
    show ?case by (simp add: left_join_def)
  next
    case (Cons x xs)
    have a: "left_join (x # xs) ?c3 (equipment_assignments s) =
        left_join [x] ?c3 (equipment_assignments s) @ left_join xs ?c3 (equipment_assignments s)"
      by (simp add: left_join_def)
    have f1: "left_join (left_join [x] ?c3 (equipment_assignments s)) ?c4 (equipment s) =
        map (\<lambda>(ea, eq). ((x, ea), eq)) (equipment_side s e)"
      by (rule fan_out_one) (use Cons.prems in simp)
    have f2: "left_join (left_join xs ?c3 (equipment_assignments s)) ?c4 (equipment s) =
        concat (map (\<lambda>x. map (\<lambda>(ea, eq). ((x, ea), eq)) (equipment_side s e)) xs)"
      by (rule Cons.IH) (use Cons.prems in simp)
    show ?case unfolding a left_join_append f1 f2 by simp
  qed
  have "cost_join s e =
      left_join (left_join (crew_side s e) ?c3 (equipment_assignments s)) ?c4 (equipment s)"
    by (simp add: cost_join_def crew_side_def)
  also have "\<dots> = concat (map (\<lambda>x. map (\<lambda>(ea, eq). ((x, ea), eq)) (equipment_side s e))
      (crew_side s e))"
    by (rule g) (simp add: crew_side_event)
  finally show ?thesis .
qed

lemma crew_term_value: "crew_term ((x, ea), eq) = Some (crew_value x)"
proof -
  obtain e ca cm where x: "x = ((e, ca), cm)" by (cases x) auto
  show ?thesis
    by (cases "Option.bind ca ca_rate_override"; cases "Option.bind cm cm_hourly_rate")
       (simp_all add: x crew_term_def crew_value_def sql_times_def)
qed

lemma sql_sum_Some: "sql_sum (map Some vs) = (if vs = [] then None else Some (sum_list vs))"
  by (induction vs) (auto split: option.splits)

lemma sum_list_replicate_concat:
  "sum_list (concat (map (\<lambda>x. replicate n (v x)) xs)) = of_nat n * sum_list (map v xs)"
  for v :: "'a \<Rightarrow> rat"
  by (induction xs) (simp_all add: sum_list_replicate algebra_simps)

lemma crew_terms_fan_out:
  "map crew_term (cost_join s e) =
     map Some (concat (map (\<lambda>x. replicate (length (equipment_side s e)) (crew_value x))
                        (crew_side s e)))"
proof -
  have "map crew_term (map (\<lambda>(ea, eq). ((x, ea), eq)) ys) =
      map Some (replicate (length ys) (crew_value x))" for x ys
    by (induction ys) (auto simp: crew_term_value)
  then show ?thesis
    by (simp add: cost_join_fan_out map_concat o_def)
qed

lemma crew_cost_fan_out:
  "cr_crew_cost (cost_row_of s e) =
     JNum (of_nat (length (equipment_side s e)) * sum_list (map crew_value (crew_side s e)))"
proof -
  let ?vs = "concat (map (\<lambda>x. replicate (length (equipment_side s e)) (crew_value x))
                        (crew_side s e))"
  have "coalesce [sql_sum (map Some vs), Some 0] = Some (sum_list vs)" for vs :: "rat list"
    by (cases vs) (simp_all add: sql_sum_Some)
  then show ?thesis
    by (simp add: cost_row_of_def crew_terms_fan_out pg_to_js_def sum_list_replicate_concat)
qed

lemma length_left_join_single:
  "list_all (\<lambda>l. length (filter (c l) rs) = 1) ls \<Longrightarrow> length (left_join ls c rs) = length ls"
proof (induction ls)
  case Nil
  show ?case by (simp add: left_join_def)
next
  case (Cons l ls)
  then have 1: "length (filter (c l) rs) = 1" and r: "list_all (\<lambda>l. length (filter (c l) rs) = 1) ls"
    by simp_all
  have "left_join (l # ls) c rs = left_join [l] c rs @ left_join ls c rs"
    by (simp add: left_join_def)
  moreover from 1 have "length (left_join [l] c rs) = 1"
    by (cases "filter (c l) rs") (simp_all add: left_join_def)
  ultimately show ?case using Cons.IH[OF r] by simp
qed

lemma equipment_side_length:
  assumes "event_integrity s e"
  shows "length (equipment_side s e) = max 1 (equipment_count s e)"
proof (cases "filter (\<lambda>ea. ev_id e = ea_event_id ea) (equipment_assignments s)")
  case Nil
  then show ?thesis by (simp add: equipment_side_def equipment_count_def left_join_def)
next
  case (Cons a as)
  let ?E = "filter (\<lambda>ea. ev_id e = ea_event_id ea) (equipment_assignments s)"
  let ?c = "\<lambda>ea eq. case ea of None \<Rightarrow> False | Some a \<Rightarrow> ea_equipment_id a = eq_id eq"
  from assms have "list_all (\<lambda>ea. length (filter (\<lambda>eq. ea_equipment_id ea = eq_id eq) (equipment s)) = 1) ?E"
    by (simp add: event_integrity_def)
  then have "list_all (\<lambda>l. length (filter (?c l) (equipment s)) = 1) (map Some ?E)"
    by (simp add: list_all_iff)
  from length_left_join_single[OF this]
  have "length (left_join (map Some ?E) ?c (equipment s)) = length ?E" by simp
  moreover have "equipment_side s e = left_join (map Some ?E) ?c (equipment s)"
    using Cons by (simp add: equipment_side_def)
  ultimately show ?thesis using Cons by (simp add: equipment_count_def)
qed

lemma map_left_join_matched:
  "list_all (\<lambda>l. filter (c l) rs \<noteq> []) ls \<Longrightarrow>
     map f (left_join ls c rs) = concat (map (\<lambda>l. map (\<lambda>r. f (l, Some r)) (filter (c l) rs)) ls)"
proof (induction ls)
  case Nil
  show ?case by (simp add: left_join_def)
next
  case (Cons l ls)
  then have ne: "filter (c l) rs \<noteq> []" and r: "list_all (\<lambda>l. filter (c l) rs \<noteq> []) ls"
    by simp_all
  have "left_join (l # ls) c rs = left_join [l] c rs @ left_join ls c rs"
    by (simp add: left_join_def)
  moreover from ne have "map f (left_join [l] c rs) = map (\<lambda>r. f (l, Some r)) (filter (c l) rs)"
    by (cases "filter (c l) rs") (simp_all add: left_join_def)
  ultimately show ?case using Cons.IH[OF r] by simp
qed

lemma crew_value_matched:
  "crew_value ((e, Some ca), Some cm) =
     spec_effective_rate (ca_rate_override ca) (cm_hourly_rate cm) * 8"
  by (cases "ca_rate_override ca"; cases "cm_hourly_rate cm")
     (simp_all add: crew_value_def spec_effective_rate_def)

lemma filter_eq_commute: "filter (\<lambda>x. f x = a) xs = filter (\<lambda>x. a = f x) xs"
  by (rule filter_cong) auto

lemma crew_side_sum:
  assumes "event_integrity s e"
  shows "sum_list (map crew_value (crew_side s e)) = spec_crew_subtotal s e"
proof (cases "filter (\<lambda>ca. ev_id e = ca_event_id ca) (crew_assignments s)")
  case Nil
  then have "crew_side s e = [((e, None), None)]"
    by (simp add: crew_side_def left_join_def)
  then show ?thesis
    using Nil by (simp add: crew_value_def spec_crew_subtotal_def filter_eq_commute)
next
  case (Cons a as)
  let ?C = "filter (\<lambda>ca. ev_id e = ca_event_id ca) (crew_assignments s)"
  let ?c2 = "\<lambda>(e, ca) cm. case ca of None \<Rightarrow> False | Some a \<Rightarrow> ca_crew_member_id a = cm_id cm"
  have cs: "crew_side s e = left_join (map (\<lambda>ca. (e, Some ca)) ?C) ?c2 (crew_members s)"
    using Cons by (simp add: crew_side_def left_join_def)
  from assms have "list_all (\<lambda>ca. filter (\<lambda>cm. ca_crew_member_id ca = cm_id cm) (crew_members s) \<noteq> []) ?C"
    by (simp add: event_integrity_def)
  then have m: "list_all (\<lambda>l. filter (?c2 l) (crew_members s) \<noteq> []) (map (\<lambda>ca. (e, Some ca)) ?C)"
    by (simp add: list_all_iff)
  have "map crew_value (crew_side s e) =
      concat (map (\<lambda>l. map (\<lambda>r. crew_value (l, Some r)) (filter (?c2 l) (crew_members s)))
        (map (\<lambda>ca. (e, Some ca)) ?C))"
    unfolding cs by (rule map_left_join_matched[OF m])
  also have "\<dots> = concat (map (\<lambda>ca.
       map (\<lambda>cm. spec_effective_rate (ca_rate_override ca) (cm_hourly_rate cm) * 8)
         (filter (\<lambda>cm. cm_id cm = ca_crew_member_id ca) (crew_members s)))
       (filter (\<lambda>ca. ca_event_id ca = ev_id e) (crew_assignments s)))"
    by (simp add: o_def crew_value_matched filter_eq_commute)
  finally show ?thesis by (simp add: spec_crew_subtotal_def)
qed

text \<open>
  The crew cost that the cost report shows for an event: under referential integrity it
  is the sum over the event's crew assignments of the effective rate times 8, multiplied
  by the number of the event's equipment assignments when there is more than one.
\<close>

lemma crew_cost_fan_out_law:
  assumes "event_integrity s e"
  shows "cr_crew_cost (cost_row_of s e) =
           JNum (of_nat (max 1 (equipment_count s e)) * spec_crew_subtotal s e)"
  by (simp only: crew_cost_fan_out equipment_side_length[OF assms] crew_side_sum[OF assms])

lemma crew_cost_right_without_fan_out:
  assumes "event_integrity s e" and "equipment_count s e \<le> 1"
  shows "cr_crew_cost (cost_row_of s e) = JNum (spec_crew_subtotal s e)"
proof -
  from assms(2) have "max 1 (equipment_count s e) = 1" by simp
  then show ?thesis by (simp add: crew_cost_fan_out_law[OF assms(1)])
qed

lemma demo_gala_fan_out:
  "event_integrity demo_store gala \<and> equipment_count demo_store gala = 2 \<and>
   spec_crew_subtotal demo_store gala = 80"
  by code_simp

end
